theory Spec2Isabelle
  imports Main "HOL-Library.Sublist" "HOL-Library.AList"
begin

section \<open>Data model\<close>

text \<open>
  JSON documents as Go decodes them into \<^verbatim>\<open>interface{}\<close>: an object is a
  \<^verbatim>\<open>map[string]interface{}\<close> (here an association list read with \<^const>\<open>map_of\<close>),
  an array is a \<^verbatim>\<open>[]interface{}\<close>.
\<close>

datatype json =
    JNull
  | JBool bool
  | JNum int
  | JStr string
  | JArr "json list"
  | JObj "(string \<times> json) list"

text \<open>The string constants of package \<^verbatim>\<open>model\<close>.\<close>

datatype Status = StatusPending | StatusClaimed | StatusAnswered | StatusCancelled | StatusExpired

datatype SchemaKind = SchemaKindJSON | SchemaKindExample | SchemaKindRef

datatype FlowStatus =
    FlowStatusRunning | FlowStatusSuspended | FlowStatusWaitingInput
  | FlowStatusCompleted | FlowStatusCancelled | FlowStatusFailed

text \<open>
  Go errors. \<^verbatim>\<open>fmt.Errorf("msg: %w", err)\<close> is \<open>Wrapf msg err\<close>;
  \<open>ErrNoRows\<close> is \<^verbatim>\<open>pgx.ErrNoRows\<close>.
\<close>

datatype error = ErrNoRows | Errorf string | Wrapf string error

text \<open>
  Rows of the tables \<^verbatim>\<open>entities\<close>, \<^verbatim>\<open>requests\<close>, \<^verbatim>\<open>responses\<close> and
  \<^verbatim>\<open>flows\<close> (structs \<^verbatim>\<open>db.Entity\<close>, \<^verbatim>\<open>db.Request\<close>, \<^verbatim>\<open>db.Response\<close>,
  \<^verbatim>\<open>db.Flow\<close>), with the columns the operations below read or write. Timestamps are
  natural numbers.
\<close>

record Entity =
  ent_ID :: string
  ent_Kind :: string
  ent_Handle :: "string option"

record Request =
  req_ID :: string
  req_CreatedBy :: string
  req_EntityID :: string
  req_Status :: Status
  req_SchemaKind :: SchemaKind
  req_SchemaPayload :: "(string \<times> json) list"
  req_DeadlineAt :: "nat option"
  req_AttentionAt :: "nat option"
  req_AutocancelGrace :: "nat option"
  req_FlowID :: "string option"
  req_UpdatedAt :: nat

record Response =
  resp_ID :: string
  resp_RequestID :: string
  resp_AnsweredBy :: string
  resp_Payload :: "(string \<times> json) list"
  resp_Files :: "(string \<times> json) list list"
  resp_AnsweredAt :: nat

record Flow =
  flow_ID :: string
  flow_Kind :: string
  flow_OwnerEntity :: string
  flow_Status :: FlowStatus
  flow_Cursor :: "(string \<times> json) list"
  flow_UpdatedAt :: nat

record DB =
  entities :: "Entity list"
  requests :: "string \<rightharpoonup> Request"
  responses :: "Response list"
  flows :: "string \<rightharpoonup> Flow"

text \<open>The zero value of \<^verbatim>\<open>db.Request\<close>, left in \<^verbatim>\<open>r\<close> when a scan fails.\<close>

definition zero_Request :: Request where
  "zero_Request = \<lparr>req_ID = [], req_CreatedBy = [], req_EntityID = [],
     req_Status = StatusPending, req_SchemaKind = SchemaKindJSON, req_SchemaPayload = [],
     req_DeadlineAt = None, req_AttentionAt = None, req_AutocancelGrace = None,
     req_FlowID = None, req_UpdatedAt = 0\<rparr>"

section \<open>Storage adapter (internal/db/queries.go)\<close>

text \<open>
  Every query is one SQL statement, executed atomically on the tables. The statements
  run against a reachable database: the driver's transport errors are not modelled.
  \<open>now\<close> is the value of \<^verbatim>\<open>NOW()\<close>.
\<close>

definition GetEntityByID :: "DB \<Rightarrow> string \<Rightarrow> error + Entity" where
  "GetEntityByID d i =
     (case find (\<lambda>e. ent_ID e = i) (entities d) of None \<Rightarrow> Inl ErrNoRows | Some e \<Rightarrow> Inr e)"

definition GetEntityByHandle :: "DB \<Rightarrow> string \<Rightarrow> error + Entity" where
  "GetEntityByHandle d h =
     (case find (\<lambda>e. ent_Handle e = Some h) (entities d) of
        None \<Rightarrow> Inl ErrNoRows | Some e \<Rightarrow> Inr e)"

definition GetRequestByID :: "DB \<Rightarrow> string \<Rightarrow> error + Request" where
  "GetRequestByID d i = (case requests d i of None \<Rightarrow> Inl ErrNoRows | Some r \<Rightarrow> Inr r)"

text \<open>
  \<^verbatim>\<open>UPDATE requests SET ... WHERE id = $1 AND <cond>\<close>: \<^verbatim>\<open>id\<close> is the primary key,
  so at most one row is affected. Returns the number of rows affected.
\<close>

definition update_requests_where ::
  "DB \<Rightarrow> string \<Rightarrow> (Request \<Rightarrow> bool) \<Rightarrow> (Request \<Rightarrow> Request) \<Rightarrow> nat \<times> DB" where
  "update_requests_where d i cond upd =
     (case requests d i of
        None \<Rightarrow> (0, d)
      | Some r \<Rightarrow>
          if cond r then (1, d\<lparr>requests := (requests d)(i \<mapsto> upd r)\<rparr>)
          else (0, d))"

definition UpdateRequestStatus :: "nat \<Rightarrow> DB \<Rightarrow> string \<Rightarrow> Status \<Rightarrow> error option \<times> DB" where
  "UpdateRequestStatus now d i st =
     (let (n, d') = update_requests_where d i (\<lambda>r. True)
                      (\<lambda>r. r\<lparr>req_Status := st, req_UpdatedAt := now\<rparr>)
      in (None, d'))"

definition Queries_ClaimRequest :: "nat \<Rightarrow> DB \<Rightarrow> string \<Rightarrow> error option \<times> DB" where
  "Queries_ClaimRequest now d i =
     (let (n, d') = update_requests_where d i (\<lambda>r. req_Status r = StatusPending)
                      (\<lambda>r. r\<lparr>req_Status := StatusClaimed, req_UpdatedAt := now\<rparr>)
      in if n = 0 then (Some ErrNoRows, d') else (None, d'))"

text \<open>
  \<^verbatim>\<open>INSERT INTO responses\<close>. \<^verbatim>\<open>id\<close> is the primary key: a second row with the same
  id is refused. \<^verbatim>\<open>request_id\<close> carries no uniqueness constraint.
\<close>

record CreateResponseParams =
  crp_ID :: string
  crp_RequestID :: string
  crp_AnsweredBy :: string
  crp_Payload :: "(string \<times> json) list"
  crp_Files :: "(string \<times> json) list list"

definition CreateResponse :: "nat \<Rightarrow> DB \<Rightarrow> CreateResponseParams \<Rightarrow> (error + Response) \<times> DB" where
  "CreateResponse now d p =
     (if list_ex (\<lambda>r. resp_ID r = crp_ID p) (responses d)
      then (Inl (Errorf ''duplicate key value violates unique constraint''), d)
      else
        (let r = \<lparr>resp_ID = crp_ID p, resp_RequestID = crp_RequestID p,
                   resp_AnsweredBy = crp_AnsweredBy p, resp_Payload = crp_Payload p,
                   resp_Files = crp_Files p, resp_AnsweredAt = now\<rparr>
         in (Inr r, d\<lparr>responses := responses d @ [r]\<rparr>)))"

definition CreateRequest :: "DB \<Rightarrow> Request \<Rightarrow> (error + Request) \<times> DB" where
  "CreateRequest d r =
     (if requests d (req_ID r) \<noteq> None
      then (Inl (Errorf ''duplicate key value violates unique constraint''), d)
      else (Inr r, d\<lparr>requests := (requests d)(req_ID r \<mapsto> r)\<rparr>))"

definition GetFlowByID :: "DB \<Rightarrow> string \<Rightarrow> error + Flow" where
  "GetFlowByID d i = (case flows d i of None \<Rightarrow> Inl ErrNoRows | Some f \<Rightarrow> Inr f)"

definition update_flows :: "DB \<Rightarrow> string \<Rightarrow> (Flow \<Rightarrow> Flow) \<Rightarrow> DB" where
  "update_flows d i upd =
     (case flows d i of
        None \<Rightarrow> d
      | Some f \<Rightarrow> d\<lparr>flows := (flows d)(i \<mapsto> upd f)\<rparr>)"

definition UpdateFlowStatus :: "nat \<Rightarrow> DB \<Rightarrow> string \<Rightarrow> FlowStatus \<Rightarrow> error option \<times> DB" where
  "UpdateFlowStatus now d i st =
     (None, update_flows d i (\<lambda>f. f\<lparr>flow_Status := st, flow_UpdatedAt := now\<rparr>))"

definition UpdateFlowCursor ::
  "nat \<Rightarrow> DB \<Rightarrow> string \<Rightarrow> (string \<times> json) list \<Rightarrow> error option \<times> DB" where
  "UpdateFlowCursor now d i cur =
     (None, update_flows d i (\<lambda>f. f\<lparr>flow_Cursor := cur, flow_UpdatedAt := now\<rparr>))"

section \<open>Event bus\<close>

text \<open>
  The \<^verbatim>\<open>EventBus\<close> interface of the services: each publication appends
  \<open>(channel, event)\<close> to the log of published events. The services discard the
  error a publication returns.
\<close>

type_synonym event = "(string \<times> json) list"
type_synonym bus = "(string \<times> event) list"

definition PublishEntity :: "bus \<Rightarrow> string \<Rightarrow> event \<Rightarrow> bus" where
  "PublishEntity b entityID ev = b @ [(''entity:'' @ entityID, ev)]"

definition PublishRequest :: "bus \<Rightarrow> string \<Rightarrow> event \<Rightarrow> bus" where
  "PublishRequest b requestID ev = b @ [(''request:'' @ requestID, ev)]"

definition PublishRequestor :: "bus \<Rightarrow> string \<Rightarrow> event \<Rightarrow> bus" where
  "PublishRequestor b clientID ev = b @ [(''requestor:'' @ clientID, ev)]"

section \<open>Schema compiler (package schema)\<close>

text \<open>
  The libraries the compiler calls are parameters: \<open>url_host u\<close> is the \<^verbatim>\<open>Host\<close> of
  \<^verbatim>\<open>url.Parse(u)\<close> (\<open>None\<close> when parsing fails), \<open>add_resource\<close> and \<open>compile\<close> are the
  results of \<^verbatim>\<open>AddResource\<close> and \<^verbatim>\<open>Compile\<close> of the JSON-Schema library on a
  document, and \<open>schema_validate s v\<close> is the result of \<^verbatim>\<open>Validate\<close> of the schema
  compiled from \<open>s\<close> on the value \<open>v\<close>.
\<close>

record Lib =
  url_host :: "string \<Rightarrow> string option"
  add_resource :: "(string \<times> json) list \<Rightarrow> error option"
  compile :: "(string \<times> json) list \<Rightarrow> error option"
  schema_validate :: "(string \<times> json) list \<Rightarrow> (string \<times> json) list \<Rightarrow> error option"

text \<open>
  \<^verbatim>\<open>expirable.LRU\<close>: the keys in the cache, most recently used first, and its capacity
  (0 is unbounded). The key of a schema is its JSON text, so the schema stands for its
  key, and for the schema compiled from it. Expiry after the time to live only removes
  entries.
\<close>

record Compiler =
  cache :: "(string \<times> json) list list"
  maxSize :: nat
  refAllowlist :: "string list"

definition NewCompilerWithCacheAndAllowlist :: "nat \<Rightarrow> string list \<Rightarrow> Compiler" where
  "NewCompilerWithCacheAndAllowlist n allowlist =
     \<lparr>cache = [], maxSize = n, refAllowlist = allowlist\<rparr>"

definition NewCompilerWithCache :: "nat \<Rightarrow> Compiler" where
  "NewCompilerWithCache n = NewCompilerWithCacheAndAllowlist n []"

definition cache_Get :: "Compiler \<Rightarrow> (string \<times> json) list \<Rightarrow> bool \<times> Compiler" where
  "cache_Get c k =
     (if k \<in> set (cache c) then (True, c\<lparr>cache := k # removeAll k (cache c)\<rparr>)
      else (False, c))"

definition cache_Add :: "Compiler \<Rightarrow> (string \<times> json) list \<Rightarrow> Compiler" where
  "cache_Add c k =
     (let xs = k # removeAll k (cache c)
      in c\<lparr>cache := (if maxSize c = 0 then xs else take (maxSize c) xs)\<rparr>)"

definition HasSuffix :: "string \<Rightarrow> string \<Rightarrow> bool" where
  "HasSuffix s suf = suffix suf s"

definition HasPrefix :: "string \<Rightarrow> string \<Rightarrow> bool" where
  "HasPrefix s pre = prefix pre s"

definition TrimSuffix :: "string \<Rightarrow> string \<Rightarrow> string" where
  "TrimSuffix s suf = (if HasSuffix s suf then take (length s - length suf) s else s)"

definition matchesPattern :: "Lib \<Rightarrow> string \<Rightarrow> string \<Rightarrow> bool" where
  "matchesPattern L urlStr pattern =
     (if urlStr = pattern then True
      else if HasSuffix pattern ''*'' then HasPrefix urlStr (TrimSuffix pattern ''*'')
      else (case (url_host L urlStr, url_host L pattern) of
              (Some h1, Some h2) \<Rightarrow> h1 = h2
            | _ \<Rightarrow> False))"

definition isRefAllowed :: "Lib \<Rightarrow> string list \<Rightarrow> string \<Rightarrow> bool" where
  "isRefAllowed L allowlist refURL =
     (if length allowlist = 0 then True
      else list_ex (\<lambda>pattern. matchesPattern L refURL pattern) allowlist)"

text \<open>
  \<^verbatim>\<open>validateRefs\<close>: the first error met, visiting the values of an object in the order
  of the association list (Go's order is unspecified; whether an error is returned does
  not depend on it).
\<close>

fun validateRefs :: "Lib \<Rightarrow> string list \<Rightarrow> json \<Rightarrow> error option"
  and validateRefs_vals :: "Lib \<Rightarrow> string list \<Rightarrow> (string \<times> json) list \<Rightarrow> error option"
  and validateRefs_items :: "Lib \<Rightarrow> string list \<Rightarrow> json list \<Rightarrow> error option" where
  "validateRefs L al (JObj v) =
     (case (case map_of v ''$ref'' of
              Some (JStr ref) \<Rightarrow>
                if \<not> isRefAllowed L al ref
                then Some (Errorf (''$ref URL not allowed: '' @ ref @ '' (not in allowlist)''))
                else None
            | _ \<Rightarrow> None) of
        Some e \<Rightarrow> Some e
      | None \<Rightarrow> validateRefs_vals L al v)"
| "validateRefs L al (JArr v) = validateRefs_items L al v"
| "validateRefs L al _ = None"
| "validateRefs_vals L al [] = None"
| "validateRefs_vals L al ((k, val) # rest) =
     (case validateRefs L al val of Some e \<Rightarrow> Some e | None \<Rightarrow> validateRefs_vals L al rest)"
| "validateRefs_items L al [] = None"
| "validateRefs_items L al (item # rest) =
     (case validateRefs L al item of Some e \<Rightarrow> Some e | None \<Rightarrow> validateRefs_items L al rest)"

text \<open>
  \<^verbatim>\<open>Prepare\<close>. The code names the resource by the first 16 hexadecimal digits of the
  schema's JSON text and panics, after the reference check, when that text is shorter
  than 8 bytes (no object with a \<^verbatim>\<open>$ref\<close> key is that short); for such a schema the
  function below continues where the code stops.
\<close>

definition Prepare :: "Lib \<Rightarrow> Compiler \<Rightarrow> (string \<times> json) list \<Rightarrow> error option \<times> Compiler" where
  "Prepare L c schema =
     (let (ok, c1) = cache_Get c schema in
      if ok then (None, c1)
      else
        (case (if length (refAllowlist c1) > 0 then validateRefs L (refAllowlist c1) (JObj schema)
               else None) of
           Some e \<Rightarrow> (Some (Wrapf ''$ref validation failed'' e), c1)
         | None \<Rightarrow>
             (case add_resource L schema of
                Some e \<Rightarrow> (Some (Wrapf ''failed to add resource'' e), c1)
              | None \<Rightarrow>
                  (case compile L schema of
                     Some e \<Rightarrow> (Some (Wrapf ''failed to compile schema'' e), c1)
                   | None \<Rightarrow> (None, cache_Add c1 schema)))))"

definition Validate ::
  "Lib \<Rightarrow> Compiler \<Rightarrow> SchemaKind \<Rightarrow> (string \<times> json) list \<Rightarrow> (string \<times> json) list
     \<Rightarrow> error option \<times> Compiler" where
  "Validate L c kind schema val =
     (if kind = SchemaKindExample then (None, c)
      else
        (let (ok, c1) = cache_Get c schema in
         case (if ok then (None, c1)
               else (case Prepare L c1 schema of
                       (Some e, c2) \<Rightarrow> (Some e, c2)
                     | (None, c2) \<Rightarrow>
                         (let (ok2, c3) = cache_Get c2 schema in
                          if \<not> ok2
                          then (Some (Errorf ''schema not found in cache after preparation''), c3)
                          else (None, c3)))) of
           (Some e, c4) \<Rightarrow> (Some e, c4)
         | (None, c4) \<Rightarrow>
             (case schema_validate L schema val of
                Some e \<Rightarrow> (Some (Wrapf ''validation failed'' e), c4)
              | None \<Rightarrow> (None, c4))))"

section \<open>File metadata (package storage)\<close>

record FileMetadata =
  fm_Name :: string
  fm_URL :: string
  fm_Size :: int
  fm_MIME :: string
  fm_SHA256 :: string

definition str_field :: "(string \<times> json) list \<Rightarrow> string \<Rightarrow> string option" where
  "str_field m k = (case map_of m k of Some (JStr s) \<Rightarrow> Some s | _ \<Rightarrow> None)"

text \<open>
  \<^verbatim>\<open>NormalizeFileMetadata\<close>. The size is kept as the JSON number; the code converts
  it to a 64-bit integer, which differs for a number beyond that range.
\<close>

definition NormalizeFileMetadata :: "(string \<times> json) list \<Rightarrow> FileMetadata" where
  "NormalizeFileMetadata file =
     \<lparr>fm_Name = (case str_field file ''name'' of Some n \<Rightarrow> n | None \<Rightarrow> []),
      fm_URL = (case str_field file ''url'' of Some u \<Rightarrow> u | None \<Rightarrow> []),
      fm_Size = (case map_of file ''size'' of Some (JNum n) \<Rightarrow> n | _ \<Rightarrow> 0),
      fm_MIME = (case str_field file ''mime'' of
                   Some m \<Rightarrow> m
                 | None \<Rightarrow> (case str_field file ''contentType'' of Some m \<Rightarrow> m | None \<Rightarrow> [])),
      fm_SHA256 = (case str_field file ''sha256'' of Some h \<Rightarrow> h | None \<Rightarrow> [])\<rparr>"

definition ValidateFileMetadata :: "FileMetadata \<Rightarrow> error option" where
  "ValidateFileMetadata meta =
     (if fm_Name meta = [] then Some (Errorf ''file name is required'')
      else if fm_URL meta = [] then Some (Errorf ''file URL is required'')
      else if fm_Size meta < 0 then Some (Errorf ''file size must be non-negative'')
      else None)"

definition ToMap :: "FileMetadata \<Rightarrow> (string \<times> json) list" where
  "ToMap m =
     [(''name'', JStr (fm_Name m)), (''url'', JStr (fm_URL m)), (''size'', JNum (fm_Size m)),
      (''mime'', JStr (fm_MIME m))]
     @ (if fm_SHA256 m \<noteq> [] then [(''sha256'', JStr (fm_SHA256 m))] else [])"

fun NormalizeFiles :: "(string \<times> json) list list \<Rightarrow> error + (string \<times> json) list list" where
  "NormalizeFiles [] = Inr []"
| "NormalizeFiles (file # rest) =
     (let meta = NormalizeFileMetadata file in
      case ValidateFileMetadata meta of
        Some e \<Rightarrow> Inl (Wrapf ''invalid file metadata'' e)
      | None \<Rightarrow>
          (case NormalizeFiles rest of
             Inl e \<Rightarrow> Inl e
           | Inr normalized \<Rightarrow> Inr (ToMap meta # normalized)))"

section \<open>Scheduler client (internal/jobs/jobs.go, internal/service/jobclient.go)\<close>

text \<open>
  A task enqueued with \<^verbatim>\<open>asynq\<close>: its type, its payload and the delay it is due in
  (\<^verbatim>\<open>asynq.ProcessIn\<close>), in seconds. The warning window is one hour.
\<close>

record Task =
  task_Type :: string
  task_Payload :: string
  task_ProcessIn :: int

definition ScheduleDeadlineNotification :: "nat \<Rightarrow> Task list \<Rightarrow> string \<Rightarrow> nat \<Rightarrow> Task list" where
  "ScheduleDeadlineNotification now q requestID deadlineAt =
     (if int deadlineAt - 3600 < int now then q
      else q @ [\<lparr>task_Type = ''deadline:notify'', task_Payload = requestID,
                 task_ProcessIn = int deadlineAt - 3600 - int now\<rparr>])"

definition ScheduleDeadlineExpiry :: "nat \<Rightarrow> Task list \<Rightarrow> string \<Rightarrow> nat \<Rightarrow> Task list" where
  "ScheduleDeadlineExpiry now q requestID deadlineAt =
     (if deadlineAt < now then q
      else q @ [\<lparr>task_Type = ''deadline:expire'', task_Payload = requestID,
                 task_ProcessIn = int deadlineAt - int now\<rparr>])"

definition ScheduleAutoCancel :: "Task list \<Rightarrow> string \<Rightarrow> int \<Rightarrow> Task list" where
  "ScheduleAutoCancel q requestID gracePeriod =
     q @ [\<lparr>task_Type = ''request:autocancel'', task_Payload = requestID,
           task_ProcessIn = gracePeriod\<rparr>]"

definition ScheduleAttentionNotification :: "nat \<Rightarrow> Task list \<Rightarrow> string \<Rightarrow> nat \<Rightarrow> Task list" where
  "ScheduleAttentionNotification now q requestID attentionAt =
     (if attentionAt < now then q
      else q @ [\<lparr>task_Type = ''request:attention'', task_Payload = requestID,
                 task_ProcessIn = int attentionAt - int now\<rparr>])"

section \<open>Request service (package service)\<close>

text \<open>
  The state the services act on: the database, the schema compiler of the request
  service, the log of published events, and the scheduler's queue (\<open>jobClient\<close> tells
  whether a job client is set). Identifiers made by \<^verbatim>\<open>ulid.Make()\<close> and the time
  are arguments.
\<close>

record World =
  db :: DB
  comp :: Compiler
  published :: bus
  jobs :: "Task list"
  jobClient :: bool

definition ResolveEntity :: "DB \<Rightarrow> string \<Rightarrow> string \<Rightarrow> error + Entity" where
  "ResolveEntity d i handle =
     (if i \<noteq> [] then
        (case GetEntityByID d i of
           Inl e \<Rightarrow> Inl (Wrapf ''entity not found by ID'' e)
         | Inr e \<Rightarrow> Inr e)
      else if handle \<noteq> [] then
        (case GetEntityByHandle d handle of
           Inl e \<Rightarrow> Inl (Wrapf ''entity not found by handle'' e)
         | Inr e \<Rightarrow> Inr e)
      else Inl (Errorf ''either id or handle must be provided''))"

definition detectSchemaKind :: "(string \<times> json) list \<Rightarrow> SchemaKind" where
  "detectSchemaKind schema =
     (if map_of schema ''$ref'' \<noteq> None then SchemaKindRef
      else if map_of schema ''example'' \<noteq> None then SchemaKindExample
      else SchemaKindJSON)"

record CreateRequestInput =
  in_EntityID :: string
  in_EntityHandle :: string
  in_Schema :: "(string \<times> json) list"
  in_DeadlineAt :: "nat option"
  in_AttentionAt :: "nat option"
  in_CreatedBy :: string

definition schedule_jobs :: "nat \<Rightarrow> Task list \<Rightarrow> Request \<Rightarrow> Task list" where
  "schedule_jobs now q req =
     (let q1 = (case req_DeadlineAt req of
                  Some dl \<Rightarrow>
                    ScheduleDeadlineExpiry now
                      (ScheduleDeadlineNotification now q (req_ID req) dl) (req_ID req) dl
                | None \<Rightarrow> q);
          q2 = (case req_AttentionAt req of
                  Some at \<Rightarrow> ScheduleAttentionNotification now q1 (req_ID req) at
                | None \<Rightarrow> q1)
      in (case req_AutocancelGrace req of
            Some g \<Rightarrow>
              if g > 0 then
                (case req_DeadlineAt req of
                   Some dl \<Rightarrow> ScheduleAutoCancel q2 (req_ID req) (int dl + int g - int now)
                 | None \<Rightarrow> q2)
              else q2
          | None \<Rightarrow> q2))"

definition RequestService_CreateRequest ::
  "Lib \<Rightarrow> nat \<Rightarrow> string \<Rightarrow> World \<Rightarrow> CreateRequestInput \<Rightarrow> (error + Request) \<times> World" where
  "RequestService_CreateRequest L now requestID w input =
     (case ResolveEntity (db w) (in_EntityID input) (in_EntityHandle input) of
        Inl e \<Rightarrow> (Inl (Wrapf ''failed to resolve entity'' e), w)
      | Inr entity \<Rightarrow>
          (let schemaKind = detectSchemaKind (in_Schema input);
               (perr, c1) = (if schemaKind = SchemaKindJSON \<or> schemaKind = SchemaKindRef
                             then Prepare L (comp w) (in_Schema input)
                             else (None, comp w));
               w1 = w\<lparr>comp := c1\<rparr>
           in case perr of
                Some e \<Rightarrow> (Inl (Wrapf ''invalid schema'' e), w1)
              | None \<Rightarrow>
                  (case CreateRequest (db w1)
                          \<lparr>req_ID = requestID, req_CreatedBy = in_CreatedBy input,
                           req_EntityID = ent_ID entity, req_Status = StatusPending,
                           req_SchemaKind = schemaKind, req_SchemaPayload = in_Schema input,
                           req_DeadlineAt = in_DeadlineAt input,
                           req_AttentionAt = in_AttentionAt input,
                           req_AutocancelGrace = None, req_FlowID = None,
                           req_UpdatedAt = now\<rparr> of
                     (Inl e, d1) \<Rightarrow> (Inl (Wrapf ''failed to create request'' e), w1\<lparr>db := d1\<rparr>)
                   | (Inr req, d1) \<Rightarrow>
                       (let b1 = PublishEntity (published w1) (ent_ID entity)
                                   [(''type'', JStr ''request.created''),
                                    (''requestId'', JStr requestID),
                                    (''entityId'', JStr (ent_ID entity))];
                            b2 = PublishRequestor b1 (in_CreatedBy input)
                                   [(''type'', JStr ''request.created''),
                                    (''requestId'', JStr requestID)];
                            q = (if jobClient w1 then schedule_jobs now (jobs w1) req
                                 else jobs w1)
                        in (Inr req, w1\<lparr>db := d1, published := b2, jobs := q\<rparr>)))))"

definition RequestService_ClaimRequest :: "nat \<Rightarrow> World \<Rightarrow> string \<Rightarrow> error option \<times> World" where
  "RequestService_ClaimRequest now w i =
     (case Queries_ClaimRequest now (db w) i of
        (Some e, d1) \<Rightarrow> (Some (Wrapf ''failed to claim request'' e), w\<lparr>db := d1\<rparr>)
      | (None, d1) \<Rightarrow>
          (let req = (case GetRequestByID d1 i of Inl e \<Rightarrow> zero_Request | Inr r \<Rightarrow> r);
               b1 = PublishRequest (published w) i
                      [(''type'', JStr ''request.claimed''), (''requestId'', JStr i)];
               b2 = PublishEntity b1 (req_EntityID req)
                      [(''type'', JStr ''request.claimed''), (''requestId'', JStr i)]
           in (None, w\<lparr>db := d1, published := b2\<rparr>)))"

definition RequestService_PostResponse ::
  "Lib \<Rightarrow> nat \<Rightarrow> string \<Rightarrow> World \<Rightarrow> string \<Rightarrow> string \<Rightarrow> (string \<times> json) list
     \<Rightarrow> (string \<times> json) list list \<Rightarrow> (error + Response) \<times> World" where
  "RequestService_PostResponse L now responseID w requestID answeredBy0 payload files =
     (case GetRequestByID (db w) requestID of
        Inl e \<Rightarrow> (Inl (Wrapf ''request not found'' e), w)
      | Inr req \<Rightarrow>
          (let answeredBy = (if answeredBy0 = [] then req_EntityID req else answeredBy0) in
           case GetEntityByID (db w) answeredBy of
             Inl e \<Rightarrow> (Inl (Wrapf ''entity not found'' e), w)
           | Inr ent \<Rightarrow>
               (let (verr, c1) =
                      (if req_SchemaKind req = SchemaKindJSON \<or> req_SchemaKind req = SchemaKindRef
                       then Validate L (comp w) (req_SchemaKind req) (req_SchemaPayload req) payload
                       else (None, comp w));
                    w1 = w\<lparr>comp := c1\<rparr>
                in case verr of
                     Some e \<Rightarrow> (Inl (Wrapf ''schema validation failed'' e), w1)
                   | None \<Rightarrow>
                       (case (if length files = 0 then Inr [] else NormalizeFiles files) of
                          Inl e \<Rightarrow> (Inl (Wrapf ''invalid file metadata'' e), w1)
                        | Inr filesParam \<Rightarrow>
                            (case CreateResponse now (db w1)
                                    \<lparr>crp_ID = responseID, crp_RequestID = requestID,
                                     crp_AnsweredBy = answeredBy, crp_Payload = payload,
                                     crp_Files = filesParam\<rparr> of
                               (Inl e, d1) \<Rightarrow>
                                 (Inl (Wrapf ''failed to create response'' e), w1\<lparr>db := d1\<rparr>)
                             | (Inr resp, d1) \<Rightarrow>
                                 (case UpdateRequestStatus now d1 requestID StatusAnswered of
                                    (Some e, d2) \<Rightarrow>
                                      (Inl (Wrapf ''failed to update request status'' e),
                                       w1\<lparr>db := d2\<rparr>)
                                  | (None, d2) \<Rightarrow>
                                      (let b1 = PublishRequest (published w1) requestID
                                                  [(''type'', JStr ''request.answered''),
                                                   (''requestId'', JStr requestID)];
                                           b2 = PublishRequestor b1 (req_CreatedBy req)
                                                  [(''type'', JStr ''request.answered''),
                                                   (''requestId'', JStr requestID),
                                                   (''payload'', JObj payload),
                                                   (''files'', JArr (map JObj files))]
                                       in (Inr resp, w1\<lparr>db := d2, published := b2\<rparr>))))))))"


section \<open>Scheduler handlers (internal/jobs/jobs.go)\<close>


section \<open>Flow runner and flow service (internal/service/flow_runner.go, flow.go)\<close>

record Suspend =
  sus_Event :: string
  sus_RequestID :: "string option"
  sus_DeadlineAt :: "nat option"
  sus_OnTimeout :: string

record StepResult =
  sr_Cursor :: "(string \<times> json) list option"
  sr_Suspend :: "Suspend option"
  sr_Done :: bool
  sr_Err :: "error option"

text \<open>\<^verbatim>\<open>err.Error()\<close>.\<close>

fun Error :: "error \<Rightarrow> string" where
  "Error ErrNoRows = ''no rows in result set''"
| "Error (Errorf s) = s"
| "Error (Wrapf s e) = s @ '': '' @ Error e"

text \<open>\<^verbatim>\<open>BasicFlowRunner.Run\<close>, the default runner of the flow service.\<close>

definition BasicFlowRunner_Run :: "Flow \<Rightarrow> StepResult" where
  "BasicFlowRunner_Run flow =
     (let step = (case str_field (flow_Cursor flow) ''step'' of Some s \<Rightarrow> s | None \<Rightarrow> []) in
      if step = [] then
        \<lparr>sr_Cursor = Some (AList.update ''step'' (JStr ''init'') (flow_Cursor flow)),
         sr_Suspend = None, sr_Done = False, sr_Err = None\<rparr>
      else if step = ''init'' then
        \<lparr>sr_Cursor = Some (flow_Cursor flow), sr_Suspend = None, sr_Done = False, sr_Err = None\<rparr>
      else if step = ''complete'' then
        \<lparr>sr_Cursor = Some (flow_Cursor flow), sr_Suspend = None, sr_Done = True, sr_Err = None\<rparr>
      else
        \<lparr>sr_Cursor = Some (flow_Cursor flow), sr_Suspend = None, sr_Done = False, sr_Err = None\<rparr>)"

text \<open>
  The part \<^verbatim>\<open>ResumeFlow\<close> and \<^verbatim>\<open>TickFlow\<close> share: store the cursor of the step's
  result, then act on suspend, done and error, in this order. \<open>Inl\<close> is a
  \<^verbatim>\<open>return\<close> of the function, \<open>Inr\<close> falls through the three \<^verbatim>\<open>if\<close>s.
\<close>

definition apply_result ::
  "nat \<Rightarrow> World \<Rightarrow> Flow \<Rightarrow> string \<Rightarrow> StepResult \<Rightarrow> (error option \<times> World) + World" where
  "apply_result now w flow flowID result =
     (let d1 = (case sr_Cursor result of
                  Some cur \<Rightarrow> snd (UpdateFlowCursor now (db w) flowID cur)
                | None \<Rightarrow> db w);
          w1 = w\<lparr>db := d1\<rparr>
      in if sr_Suspend result \<noteq> None then
           (let d2 = snd (UpdateFlowStatus now d1 flowID FlowStatusSuspended);
                b = PublishEntity (published w1) (flow_OwnerEntity flow)
                      [(''type'', JStr ''flow.suspended''), (''flowId'', JStr flowID)]
            in Inl (None, w1\<lparr>db := d2, published := b\<rparr>))
         else if sr_Done result then
           (let d2 = snd (UpdateFlowStatus now d1 flowID FlowStatusCompleted);
                b = PublishEntity (published w1) (flow_OwnerEntity flow)
                      [(''type'', JStr ''flow.completed''), (''flowId'', JStr flowID)]
            in Inl (None, w1\<lparr>db := d2, published := b\<rparr>))
         else
           (case sr_Err result of
              Some err \<Rightarrow>
                (let d2 = snd (UpdateFlowStatus now d1 flowID FlowStatusFailed);
                     b = PublishEntity (published w1) (flow_OwnerEntity flow)
                           [(''type'', JStr ''flow.failed''), (''flowId'', JStr flowID),
                            (''error'', JStr (Error err))]
                 in Inl (Some err, w1\<lparr>db := d2, published := b\<rparr>))
            | None \<Rightarrow> Inr w1))"

definition ResumeFlow ::
  "nat \<Rightarrow> (Flow \<Rightarrow> StepResult) option \<Rightarrow> World \<Rightarrow> string \<Rightarrow> string \<Rightarrow> (string \<times> json) list
     \<Rightarrow> error option \<times> World" where
  "ResumeFlow now runner w flowID event data =
     (case GetFlowByID (db w) flowID of
        Inl e \<Rightarrow> (Some (Wrapf ''flow not found'' e), w)
      | Inr flow0 \<Rightarrow>
          (let flow = flow0\<lparr>flow_Cursor :=
                        AList.update ''lastEvent''
                          (JObj [(''type'', JStr event), (''data'', JObj data)])
                          (flow_Cursor flow0)\<rparr>;
               d1 = snd (UpdateFlowCursor now (db w) flowID (flow_Cursor flow));
               d2 = snd (UpdateFlowStatus now d1 flowID FlowStatusRunning);
               w2 = w\<lparr>db := d2\<rparr>
           in case (case runner of
                      Some run \<Rightarrow> apply_result now w2 flow flowID (run flow)
                    | None \<Rightarrow> Inr w2) of
                Inl r \<Rightarrow> r
              | Inr w3 \<Rightarrow>
                  (None, w3\<lparr>published :=
                     PublishEntity (published w3) (flow_OwnerEntity flow)
                       [(''type'', JStr ''flow.updated''), (''flowId'', JStr flowID),
                        (''status'', JStr ''RUNNING'')]\<rparr>)))"

definition TickFlow ::
  "nat \<Rightarrow> (Flow \<Rightarrow> StepResult) option \<Rightarrow> World \<Rightarrow> string \<Rightarrow> error option \<times> World" where
  "TickFlow now runner w flowID =
     (case GetFlowByID (db w) flowID of
        Inl e \<Rightarrow> (Some (Wrapf ''flow not found'' e), w)
      | Inr flow \<Rightarrow>
          if flow_Status flow \<noteq> FlowStatusRunning \<and> flow_Status flow \<noteq> FlowStatusSuspended
          then (None, w)
          else
            (case runner of
               None \<Rightarrow> (Some (Errorf ''flow runner not set''), w)
             | Some run \<Rightarrow>
                 (case apply_result now w flow flowID (run flow) of
                    Inl r \<Rightarrow> r
                  | Inr w1 \<Rightarrow> (None, w1))))"

definition CancelFlow :: "nat \<Rightarrow> World \<Rightarrow> string \<Rightarrow> error option \<times> World" where
  "CancelFlow now w flowID =
     (case GetFlowByID (db w) flowID of
        Inl e \<Rightarrow> (Some (Wrapf ''flow not found'' e), w)
      | Inr flow \<Rightarrow>
          (let d1 = snd (UpdateFlowStatus now (db w) flowID FlowStatusCancelled);
               b = PublishEntity (published w) (flow_OwnerEntity flow)
                     [(''type'', JStr ''flow.updated''), (''flowId'', JStr flowID),
                      (''status'', JStr ''CANCELLED'')]
           in (None, w\<lparr>db := d1, published := b\<rparr>)))"

section \<open>Event log on Redis (internal/pubsub/streams.go)\<close>

text \<open>
  The part of Redis the event log uses. \<^verbatim>\<open>INCR key\<close> adds one to the integer at
  \<open>key\<close> (0 when absent) and returns it. A stream is the list of its entries, oldest
  first; an entry has an ID \<open>(ms, n)\<close>, written \<^verbatim>\<open>ms-n\<close>, and its field \<^verbatim>\<open>data\<close>.
  \<^verbatim>\<open>XADD key *\<close> appends an entry whose ID Redis makes from its clock: the millisecond
  time with \<open>n = 0\<close>, or, when the last entry of the stream already has that (or a later)
  millisecond, the last ID with \<open>n\<close> increased by one. \<^verbatim>\<open>XREAD COUNT c STREAMS key id\<close>
  returns the entries whose ID is greater than \<open>id\<close>, oldest first, at most \<open>c\<close> of
  them when \<open>c > 0\<close>. Redis is reachable: the client's transport errors are not
  modelled.
\<close>

type_synonym stream_id = "nat \<times> nat"

record Redis =
  counters :: "string \<rightharpoonup> int"
  streams :: "string \<rightharpoonup> (stream_id \<times> json) list"

definition Incr :: "Redis \<Rightarrow> string \<Rightarrow> int \<times> Redis" where
  "Incr r key =
     (let v = (case counters r key of None \<Rightarrow> 0 | Some n \<Rightarrow> n) + 1
      in (v, r\<lparr>counters := (counters r)(key \<mapsto> v)\<rparr>))"

definition next_id :: "nat \<Rightarrow> (stream_id \<times> json) list \<Rightarrow> stream_id" where
  "next_id now_ms entries =
     (if entries = [] then (now_ms, 0)
      else (let (ms, n) = fst (last entries)
            in if now_ms > ms then (now_ms, 0) else (ms, n + 1)))"

definition digit_char :: "nat \<Rightarrow> char" where
  "digit_char d = ''0123456789'' ! d"

fun show_nat :: "nat \<Rightarrow> string" where
  "show_nat n = (if n < 10 then [digit_char n] else show_nat (n div 10) @ [digit_char (n mod 10)])"

declare show_nat.simps [simp del]

definition show_id :: "stream_id \<Rightarrow> string" where
  "show_id i = show_nat (fst i) @ ''-'' @ show_nat (snd i)"

definition XAdd :: "nat \<Rightarrow> Redis \<Rightarrow> string \<Rightarrow> json \<Rightarrow> string \<times> Redis" where
  "XAdd now_ms r key data =
     (let entries = (case streams r key of None \<Rightarrow> [] | Some es \<Rightarrow> es);
          i = next_id now_ms entries
      in (show_id i, r\<lparr>streams := (streams r)(key \<mapsto> entries @ [(i, data)])\<rparr>))"

definition id_greater :: "stream_id \<Rightarrow> int \<times> int \<Rightarrow> bool" where
  "id_greater i start =
     (int (fst i) > fst start \<or> (int (fst i) = fst start \<and> int (snd i) > snd start))"

definition XRead :: "Redis \<Rightarrow> string \<Rightarrow> int \<times> int \<Rightarrow> nat \<Rightarrow> (stream_id \<times> json) list" where
  "XRead r key start count =
     (let es = filter (\<lambda>e. id_greater (fst e) start)
                 (case streams r key of None \<Rightarrow> [] | Some es \<Rightarrow> es)
      in if count > 0 then take count es else es)"

text \<open>\<^verbatim>\<open>strconv.ParseInt(s, 10, 64)\<close>: an optional sign and decimal digits, in range.\<close>

definition is_digit :: "char \<Rightarrow> bool" where
  "is_digit c = (c \<in> set ''0123456789'')"

definition digit_value :: "char \<Rightarrow> int" where
  "digit_value c = int (length (takeWhile (\<lambda>d. d \<noteq> c) ''0123456789''))"

definition digits_value :: "string \<Rightarrow> int" where
  "digits_value ds = foldl (\<lambda>acc c. 10 * acc + digit_value c) 0 ds"

definition ParseInt :: "string \<Rightarrow> error + int" where
  "ParseInt s =
     (let neg = (s \<noteq> [] \<and> hd s = CHR ''-'');
          ds = (if s \<noteq> [] \<and> (hd s = CHR ''-'' \<or> hd s = CHR ''+'') then tl s else s)
      in if ds = [] \<or> \<not> list_all is_digit ds then Inl (Errorf ''invalid syntax'')
         else (let v = (if neg then - digits_value ds else digits_value ds)
               in if v < - (2 ^ 63) \<or> v > 2 ^ 63 - 1 then Inl (Errorf ''value out of range'')
                  else Inr v))"

text \<open>\<^verbatim>\<open>splitStreamID\<close>: the index of the last dash, \<open>-1\<close> when there is none.\<close>

fun last_dash :: "string \<Rightarrow> nat \<Rightarrow> int" where
  "last_dash s 0 = - 1"
| "last_dash s (Suc i) = (if s ! i = CHR ''-'' then int i else last_dash s i)"

definition splitStreamID :: "string \<Rightarrow> string list" where
  "splitStreamID s =
     (let lastDash = last_dash s (length s)
      in if lastDash > 0 then [take (nat lastDash) s, drop (nat lastDash + 1) s]
         else [s])"

definition parseStreamID :: "string \<Rightarrow> error + int" where
  "parseStreamID s =
     (let parts = splitStreamID s
      in if length parts < 2 then Inl (Errorf ''invalid stream ID format'')
         else (case ParseInt (parts ! 1) of
                 Inl e \<Rightarrow> Inl (Wrapf ''failed to parse sequence'' e)
               | Inr v \<Rightarrow> Inr v))"

definition getNextSequence :: "Redis \<Rightarrow> string \<Rightarrow> int \<times> Redis" where
  "getNextSequence r channel = Incr r (''seq:'' @ channel)"

text \<open>
  \<^verbatim>\<open>PublishEvent\<close>: the sequence number returned to the publisher, and the store.
  \<open>now_ms\<close> is the clock of Redis when the entry is added; the event's time stamp is
  kept as that number.
\<close>

definition PublishEvent :: "nat \<Rightarrow> Redis \<Rightarrow> string \<Rightarrow> event \<Rightarrow> int \<times> Redis" where
  "PublishEvent now_ms r channel ev =
     (let streamKey = ''stream:'' @ channel;
          (seq0, r1) = getNextSequence r channel;
          eventWithSeq =
            AList.update ''timestamp'' (JNum (int now_ms))
              (AList.update ''channel'' (JStr channel)
                 (AList.update ''seq'' (JNum seq0) ev));
          (i, r2) = XAdd now_ms r1 streamKey (JObj eventWithSeq);
          seqFromID = (case parseStreamID i of Inl e \<Rightarrow> 0 | Inr v \<Rightarrow> v);
          seq = (if seqFromID > 0 then seqFromID else seq0)
      in (seq, r2))"

record StreamEvent =
  se_Channel :: string
  se_Sequence :: int
  se_Event :: event
  se_Timestamp :: int

text \<open>One message of the stream decoded into a \<^verbatim>\<open>StreamEvent\<close>; \<open>None\<close> is \<^verbatim>\<open>continue\<close>.\<close>

definition decode_message :: "nat \<Rightarrow> json \<Rightarrow> StreamEvent option" where
  "decode_message now_ms data =
     (case data of
        JObj eventData \<Rightarrow>
          Some \<lparr>se_Channel = (case str_field eventData ''channel'' of Some c \<Rightarrow> c | None \<Rightarrow> []),
                se_Sequence = (case map_of eventData ''seq'' of Some (JNum n) \<Rightarrow> n | _ \<Rightarrow> 0),
                se_Event = filter (\<lambda>(k, v). k \<noteq> ''seq'' \<and> k \<noteq> ''channel'' \<and> k \<noteq> ''timestamp'')
                             eventData,
                se_Timestamp = (case map_of eventData ''timestamp'' of
                                  Some (JNum t) \<Rightarrow> t | _ \<Rightarrow> int now_ms)\<rparr>
      | _ \<Rightarrow> None)"

text \<open>
  \<^verbatim>\<open>ReplayEvents\<close>. When no entry is newer than the start ID the function below
  returns the empty list, the answer of a read that does not block; the client sends the
  read with a zero block time, on which Redis waits for the next entry.
\<close>

definition ReplayEvents :: "nat \<Rightarrow> Redis \<Rightarrow> string \<Rightarrow> int \<Rightarrow> nat \<Rightarrow> StreamEvent list" where
  "ReplayEvents now_ms r channel sinceSeq limit =
     (let streamKey = ''stream:'' @ channel;
          startID = (int now_ms - 24 * 3600 * 1000, sinceSeq);
          msgs = XRead r streamKey startID limit
      in List.map_filter (\<lambda>m. decode_message now_ms (snd m)) msgs)"

section \<open>Session hub (package ws)\<close>

text \<open>
  A connection's outbound queue \<^verbatim>\<open>send\<close> (a channel of capacity 256) holds the
  messages written to it and not yet sent. \<^verbatim>\<open>Hub.Resume\<close> replays at most 100 events
  and stops at the first message the queue cannot take.
\<close>

record Message =
  msg_Type :: string
  msg_Channel :: string
  msg_Seq :: int
  msg_Data :: event

record Conn =
  conn_send :: "Message list"
  conn_userID :: string

fun send_all :: "Conn \<Rightarrow> Message list \<Rightarrow> Conn" where
  "send_all c [] = c"
| "send_all c (m # ms) =
     (if length (conn_send c) < 256 then send_all (c\<lparr>conn_send := conn_send c @ [m]\<rparr>) ms
      else c)"

definition Hub_Resume :: "nat \<Rightarrow> Redis \<Rightarrow> Conn \<Rightarrow> string \<Rightarrow> int \<Rightarrow> Conn" where
  "Hub_Resume now_ms r c channel sinceSeq =
     send_all c
       (map (\<lambda>e. \<lparr>msg_Type = ''event'', msg_Channel = se_Channel e, msg_Seq = se_Sequence e,
                   msg_Data = se_Event e\<rparr>)
          (ReplayEvents now_ms r channel sinceSeq 100))"

section \<open>Runs of calls and sample states\<close>

text \<open>
  A run of \<^verbatim>\<open>ClaimRequest\<close> calls, each with its time and the request it claims, in
  the order the database executes their \<^verbatim>\<open>UPDATE\<close> statements; the result of each
  call is kept with the request it was for.
\<close>

fun run_claims :: "World \<Rightarrow> (nat \<times> string) list \<Rightarrow> (string \<times> error option) list" where
  "run_claims w [] = []"
| "run_claims w ((now, i) # cs) =
     (case RequestService_ClaimRequest now w i of
        (res, w') \<Rightarrow> (i, res) # run_claims w' cs)"

definition is_pending :: "World \<Rightarrow> string \<Rightarrow> bool" where
  "is_pending w i =
     (case requests (db w) i of Some r \<Rightarrow> req_Status r = StatusPending | None \<Rightarrow> False)"

text \<open>
  Concurrent callers of \<^verbatim>\<open>ClaimRequest\<close> on one request, interleaved at the
  statements of the function. A caller is \<open>Ready\<close> before its conditional
  \<^verbatim>\<open>UPDATE\<close>, \<open>Updated\<close> when the statement affected a row and the events are not yet
  published, and \<open>Returned\<close> with its result after that. A schedule gives, step by
  step, the time and the caller that runs its next statement.
\<close>

datatype call_state = Ready | Updated | Returned "error option"

fun claim_step :: "string \<Rightarrow> World \<times> call_state list \<Rightarrow> nat \<times> nat \<Rightarrow> World \<times> call_state list" where
  "claim_step i (w, cs) (now, k) =
     (if k < length cs then
        (case cs ! k of
           Ready \<Rightarrow>
             (case Queries_ClaimRequest now (db w) i of
                (Some e, d1) \<Rightarrow>
                  (w\<lparr>db := d1\<rparr>, cs[k := Returned (Some (Wrapf ''failed to claim request'' e))])
              | (None, d1) \<Rightarrow> (w\<lparr>db := d1\<rparr>, cs[k := Updated]))
         | Updated \<Rightarrow>
             (let req = (case GetRequestByID (db w) i of Inl e \<Rightarrow> zero_Request | Inr r \<Rightarrow> r);
                  b1 = PublishRequest (published w) i
                         [(''type'', JStr ''request.claimed''), (''requestId'', JStr i)];
                  b2 = PublishEntity b1 (req_EntityID req)
                         [(''type'', JStr ''request.claimed''), (''requestId'', JStr i)]
              in (w\<lparr>published := b2\<rparr>, cs[k := Returned None]))
         | Returned r \<Rightarrow> (w, cs))
      else (w, cs))"

definition interleave :: "string \<Rightarrow> World \<Rightarrow> nat \<Rightarrow> (nat \<times> nat) list \<Rightarrow> World \<times> call_state list" where
  "interleave i w n sched = foldl (claim_step i) (w, replicate n Ready) sched"

definition succeeded :: "call_state \<Rightarrow> bool" where
  "succeeded s = (s = Updated \<or> s = Returned None)"

definition claim_inv :: "string \<Rightarrow> World \<times> call_state list \<Rightarrow> bool" where
  "claim_inv i st =
     ((\<forall>k k'. k < length (snd st) \<and> k' < length (snd st)
          \<and> succeeded (snd st ! k) \<and> succeeded (snd st ! k') \<longrightarrow> k = k')
      \<and> ((\<exists>k < length (snd st). succeeded (snd st ! k)) \<longrightarrow> \<not> is_pending (fst st) i))"

text \<open>The entity, schema and request of the scenarios of the specification.\<close>

definition alice :: Entity where
  "alice = \<lparr>ent_ID = ''e1'', ent_Kind = ''user'', ent_Handle = Some ''alice@example.com''\<rparr>"

definition name_schema :: "(string \<times> json) list" where
  "name_schema =
     [(''type'', JStr ''object''),
      (''properties'', JObj [(''name'', JObj [(''type'', JStr ''string'')])]),
      (''required'', JArr [JStr ''name''])]"

definition request_X :: "Status \<Rightarrow> string option \<Rightarrow> Request" where
  "request_X st fl =
     \<lparr>req_ID = ''X'', req_CreatedBy = ''client'', req_EntityID = ''e1'', req_Status = st,
      req_SchemaKind = SchemaKindJSON, req_SchemaPayload = name_schema,
      req_DeadlineAt = None, req_AttentionAt = None, req_AutocancelGrace = None,
      req_FlowID = fl, req_UpdatedAt = 0\<rparr>"

definition flow_F :: "FlowStatus \<Rightarrow> string \<Rightarrow> Flow" where
  "flow_F st step =
     \<lparr>flow_ID = ''F'', flow_Kind = ''basic'', flow_OwnerEntity = ''e1'', flow_Status = st,
      flow_Cursor = [(''step'', JStr step)], flow_UpdatedAt = 0\<rparr>"

definition world_of :: "Request \<Rightarrow> Flow \<Rightarrow> World" where
  "world_of r f =
     \<lparr>db = \<lparr>entities = [alice], requests = [req_ID r \<mapsto> r], responses = [],
             flows = [flow_ID f \<mapsto> f]\<rparr>,
      comp = NewCompilerWithCache 64, published = [], jobs = [], jobClient = False\<rparr>"

section \<open>Reference URLs of a document and states of the compiler\<close>

text \<open>
  Every reference URL of a document: the string under the key \<^verbatim>\<open>$ref\<close> of each
  object, at any depth of nested objects and arrays.
\<close>

fun refs_of :: "json \<Rightarrow> string list"
  and refs_of_vals :: "(string \<times> json) list \<Rightarrow> string list"
  and refs_of_items :: "json list \<Rightarrow> string list" where
  "refs_of (JObj v) =
     (case map_of v ''$ref'' of Some (JStr u) \<Rightarrow> [u] | _ \<Rightarrow> []) @ refs_of_vals v"
| "refs_of (JArr v) = refs_of_items v"
| "refs_of _ = []"
| "refs_of_vals [] = []"
| "refs_of_vals ((k, val) # rest) = refs_of val @ refs_of_vals rest"
| "refs_of_items [] = []"
| "refs_of_items (item # rest) = refs_of item @ refs_of_items rest"

text \<open>
  The states a compiler can be in: made by the constructor, then changed by
  \<^verbatim>\<open>Prepare\<close> and \<^verbatim>\<open>Validate\<close>, and by the cache dropping entries on expiry.
\<close>

inductive reachable_compiler :: "Lib \<Rightarrow> Compiler \<Rightarrow> bool" for L :: Lib where
  rc_new: "reachable_compiler L (NewCompilerWithCacheAndAllowlist n allowlist)"
| rc_prepare: "reachable_compiler L c \<Longrightarrow> reachable_compiler L (snd (Prepare L c schema))"
| rc_validate: "reachable_compiler L c \<Longrightarrow> reachable_compiler L (snd (Validate L c kind schema val))"
| rc_expire: "reachable_compiler L c \<Longrightarrow> reachable_compiler L (c\<lparr>cache := filter keep (cache c)\<rparr>)"

definition cache_inv :: "Lib \<Rightarrow> Compiler \<Rightarrow> bool" where
  "cache_inv L c =
     (\<forall>s \<in> set (cache c).
        add_resource L s = None \<and> compile L s = None
        \<and> (refAllowlist c \<noteq> [] \<longrightarrow> validateRefs L (refAllowlist c) (JObj s) = None))"

text \<open>
  A library for the sample runs: every schema compiles, a value is valid when it has
  the properties the schema lists under \<^verbatim>\<open>required\<close>, and the host of a URL is what
  stands between \<^verbatim>\<open>://\<close> and the next slash.
\<close>

definition required_of :: "(string \<times> json) list \<Rightarrow> string list" where
  "required_of schema =
     (case map_of schema ''required'' of
        Some (JArr ks) \<Rightarrow> List.map_filter (\<lambda>k. case k of JStr n \<Rightarrow> Some n | _ \<Rightarrow> None) ks
      | _ \<Rightarrow> [])"

fun after_scheme :: "string \<Rightarrow> string option" where
  "after_scheme (a # b # c # rest) =
     (if [a, b, c] = ''://'' then Some rest else after_scheme (b # c # rest))"
| "after_scheme _ = None"

definition sample_lib :: Lib where
  "sample_lib =
     \<lparr>url_host = (\<lambda>u. case after_scheme u of
                         Some rest \<Rightarrow> Some (takeWhile (\<lambda>ch. ch \<noteq> CHR ''/'') rest)
                       | None \<Rightarrow> Some []),
      add_resource = (\<lambda>s. None),
      compile = (\<lambda>s. None),
      schema_validate = (\<lambda>s v.
         if list_all (\<lambda>k. map_of v k \<noteq> None) (required_of s) then None
         else Some (Errorf ''missing properties''))\<rparr>"

text \<open>A schema with a nested reference.\<close>

definition ref_schema :: "string \<Rightarrow> (string \<times> json) list" where
  "ref_schema u =
     [(''type'', JStr ''object''),
      (''properties'', JObj [(''address'', JObj [(''$ref'', JStr u)])])]"

text \<open>An empty Redis, a run of publications on one channel, and sample events.\<close>

definition redis0 :: Redis where
  "redis0 = \<lparr>counters = Map.empty, streams = Map.empty\<rparr>"

fun publish_all :: "Redis \<Rightarrow> string \<Rightarrow> (nat \<times> event) list \<Rightarrow> int list \<times> Redis" where
  "publish_all r channel [] = ([], r)"
| "publish_all r channel ((now_ms, e) # rest) =
     (case PublishEvent now_ms r channel e of
        (seq, r1) \<Rightarrow> (case publish_all r1 channel rest of (seqs, r2) \<Rightarrow> (seq # seqs, r2)))"

definition sample_event :: "string \<Rightarrow> event" where
  "sample_event t = [(''type'', JStr t)]"

definition five_events :: "(nat \<times> event) list" where
  "five_events =
     [(1700000000001, sample_event ''e1''), (1700000000002, sample_event ''e2''),
      (1700000000003, sample_event ''e3''), (1700000000004, sample_event ''e4''),
      (1700000000005, sample_event ''e5'')]"

text \<open>The entry \<^verbatim>\<open>PublishEvent\<close> stores for a sample event with sequence number \<open>n\<close>.\<close>

definition stored_event :: "nat \<Rightarrow> int \<Rightarrow> string \<Rightarrow> stream_id \<times> json" where
  "stored_event ms n t =
     ((ms, 0), JObj [(''type'', JStr t), (''seq'', JNum n), (''channel'', JStr ''entity:E''),
                     (''timestamp'', JNum (int ms))])"

definition conn0 :: Conn where
  "conn0 = \<lparr>conn_send = [], conn_userID = ''subscriber''\<rparr>"

section \<open>Claiming a request\<close>

lemma claim_result:
  "RequestService_ClaimRequest now w i =
     (if is_pending w i
      then (None, w\<lparr>db := (db w)\<lparr>requests := (requests (db w))(i \<mapsto>
              (the (requests (db w) i))\<lparr>req_Status := StatusClaimed, req_UpdatedAt := now\<rparr>)\<rparr>,
              published := published w @
                [(''request:'' @ i, [(''type'', JStr ''request.claimed''), (''requestId'', JStr i)]),
                 (''entity:'' @ req_EntityID (the (requests (db w) i)),
                  [(''type'', JStr ''request.claimed''), (''requestId'', JStr i)])]\<rparr>)
      else (Some (Wrapf ''failed to claim request'' ErrNoRows), w))"
  by (auto simp: RequestService_ClaimRequest_def Queries_ClaimRequest_def update_requests_where_def
      is_pending_def GetRequestByID_def PublishRequest_def PublishEntity_def Let_def
      split: option.splits)

lemma claim_not_pending_after:
  "\<not> is_pending w i \<Longrightarrow> \<not> is_pending (snd (RequestService_ClaimRequest now w j)) i"
  by (auto simp: claim_result is_pending_def split: option.splits)

lemma claim_success_not_pending_after:
  "fst (RequestService_ClaimRequest now w i) = None
   \<Longrightarrow> \<not> is_pending (snd (RequestService_ClaimRequest now w i)) i"
  by (auto simp: claim_result is_pending_def split: option.splits if_splits)

lemma run_claims_none:
  "\<not> is_pending w i \<Longrightarrow> filter (\<lambda>(j, res). j = i \<and> res = None) (run_claims w cs) = []"
proof (induction cs arbitrary: w)
  case Nil
  then show ?case by simp
next
  case (Cons c cs)
  obtain now j where c: "c = (now, j)" by (cases c)
  obtain res w' where r: "RequestService_ClaimRequest now w j = (res, w')"
    by (cases "RequestService_ClaimRequest now w j")
  have np: "\<not> is_pending w' i" using claim_not_pending_after[OF Cons.prems, of now j] r by simp
  have "j = i \<Longrightarrow> res \<noteq> None" using Cons.prems r by (auto simp: claim_result)
  then show ?case using Cons.IH[OF np] c r by auto
qed

lemma run_claims_at_most_one:
  "length (filter (\<lambda>(j, res). j = i \<and> res = None) (run_claims w cs)) \<le> 1"
proof (induction cs arbitrary: w)
  case Nil
  then show ?case by simp
next
  case (Cons c cs)
  obtain now j where c: "c = (now, j)" by (cases c)
  obtain res w' where r: "RequestService_ClaimRequest now w j = (res, w')"
    by (cases "RequestService_ClaimRequest now w j")
  show ?case
  proof (cases "j = i \<and> res = None")
    case True
    then have "\<not> is_pending w' i" using claim_success_not_pending_after[of now w i] r by simp
    from run_claims_none[OF this] show ?thesis using c r True by simp
  next
    case False
    then show ?thesis using Cons.IH[of w'] c r by auto
  qed
qed

lemma Queries_ClaimRequest_result:
  "Queries_ClaimRequest now d i =
     (case requests d i of
        Some r \<Rightarrow> if req_Status r = StatusPending
                  then (None, d\<lparr>requests := (requests d)(i \<mapsto>
                                r\<lparr>req_Status := StatusClaimed, req_UpdatedAt := now\<rparr>)\<rparr>)
                  else (Some ErrNoRows, d)
      | None \<Rightarrow> (Some ErrNoRows, d))"
  by (simp add: Queries_ClaimRequest_def update_requests_where_def split: option.splits)

lemma claim_step_length: "length (snd (claim_step i st x)) = length (snd st)"
  by (cases st; cases x)
     (auto simp: Let_def split: call_state.splits option.splits prod.splits)

lemma claim_step_inv: "claim_inv i st \<Longrightarrow> claim_inv i (claim_step i st x)"
proof -
  assume inv: "claim_inv i st"
  obtain w cs where st: "st = (w, cs)" by (cases st)
  obtain now k where x: "x = (now, k)" by (cases x)
  show ?thesis
  proof (cases "k < length cs")
    case False
    then show ?thesis using inv st x by simp
  next
    case k: True
    show ?thesis
    proof (cases "cs ! k")
      case Ready
      show ?thesis
      proof (cases "is_pending w i")
        case True
        then have none: "\<forall>j < length cs. \<not> succeeded (cs ! j)"
          using inv st by (auto simp: claim_inv_def)
        have "claim_step i st x =
                (w\<lparr>db := (db w)\<lparr>requests := (requests (db w))(i \<mapsto>
                    (the (requests (db w) i))\<lparr>req_Status := StatusClaimed, req_UpdatedAt := now\<rparr>)\<rparr>\<rparr>,
                 cs[k := Updated])"
          using True Ready k st x
          by (auto simp: Queries_ClaimRequest_result is_pending_def split: option.splits)
        then show ?thesis using none k
          by (auto simp: claim_inv_def nth_list_update is_pending_def succeeded_def
              split: if_splits)
      next
        case False
        then have "claim_step i st x =
                (w, cs[k := Returned (Some (Wrapf ''failed to claim request'' ErrNoRows))])"
          using Ready k st x
          by (auto simp: Queries_ClaimRequest_result is_pending_def split: option.splits)
        then show ?thesis using inv st k Ready
          by (auto simp: claim_inv_def nth_list_update succeeded_def split: if_splits)
      qed
    next
      case Updated
      then obtain b where
        step: "claim_step i st x = (w\<lparr>published := b\<rparr>, cs[k := Returned None])"
        using k st x by (simp add: Let_def)
      have pend: "is_pending (w\<lparr>published := b\<rparr>) i = is_pending w i"
        by (simp add: is_pending_def)
      have one: "\<And>j. j < length cs \<Longrightarrow> succeeded (cs ! j) \<Longrightarrow> j = k"
        using inv st k Updated by (auto simp: claim_inv_def succeeded_def)
      have np: "\<not> is_pending w i"
        using inv st k Updated by (auto simp: claim_inv_def succeeded_def)
      show ?thesis
        unfolding step claim_inv_def using one np pend k
        by (auto simp: nth_list_update split: if_splits)
    next
      case (Returned r)
      then show ?thesis using inv st x k by simp
    qed
  qed
qed

lemma claim_inv_foldl: "claim_inv i st \<Longrightarrow> claim_inv i (foldl (claim_step i) st sched)"
  by (induction sched arbitrary: st) (simp_all add: claim_step_inv)

lemma claim_step_foldl_length: "length (snd (foldl (claim_step i) st sched)) = length (snd st)"
  by (induction sched arbitrary: st) (simp_all add: claim_step_length)

lemma interleave_at_most_one:
  assumes "k < n" and "k' < n"
    and "succeeded (snd (interleave i w n sched) ! k)"
    and "succeeded (snd (interleave i w n sched) ! k')"
  shows "k = k'"
proof -
  have "claim_inv i (w, replicate n Ready)"
    by (auto simp: claim_inv_def succeeded_def)
  then have inv: "claim_inv i (interleave i w n sched)"
    unfolding interleave_def by (rule claim_inv_foldl)
  have len: "length (snd (interleave i w n sched)) = n"
    by (simp add: interleave_def claim_step_foldl_length)
  from inv have "\<forall>k k'. k < n \<and> k' < n
          \<and> succeeded (snd (interleave i w n sched) ! k)
          \<and> succeeded (snd (interleave i w n sched) ! k') \<longrightarrow> k = k'"
    unfolding claim_inv_def len by (rule conjunct1)
  then show ?thesis using assms by blast
qed

lemma claim_steps_are_ClaimRequest:
  "k < length cs \<Longrightarrow> cs ! k = Ready \<Longrightarrow>
   claim_step i (claim_step i (w, cs) (now, k)) (now', k)
     = (snd (RequestService_ClaimRequest now w i),
        cs[k := Returned (fst (RequestService_ClaimRequest now w i))])"
  by (auto simp: RequestService_ClaimRequest_def Queries_ClaimRequest_result GetRequestByID_def
      Let_def split: option.splits)

text \<open>
  C1. For a request \<open>r\<close> stored under \<open>i\<close>: \<^verbatim>\<open>ClaimRequest\<close> succeeds exactly when
  the status of \<open>r\<close> is PENDING as its conditional update runs, at the storage adapter and
  at the service; on success the row becomes CLAIMED; otherwise the update affects no
  row, the call fails with the claim conflict (the wrapped \<^verbatim>\<open>pgx.ErrNoRows\<close>), and
  the whole state, the row included, is unchanged. Each call writes only through that one
  atomic statement, so in every run of claim calls, on any requests and at any times, at
  most one call on \<open>i\<close> succeeds; and when \<open>n\<close> concurrent callers claim \<open>i\<close>,
  their statements interleaved by any schedule, any two callers whose update succeeded
  are the same caller.
\<close>

theorem claim_iff_pending_and_at_most_once:
  "requests (db w) i = Some r \<Longrightarrow>
     (fst (RequestService_ClaimRequest now w i) = None \<longleftrightarrow> req_Status r = StatusPending)
   \<and> (fst (Queries_ClaimRequest now (db w) i) = None \<longleftrightarrow> req_Status r = StatusPending)
   \<and> (req_Status r = StatusPending \<longrightarrow>
        requests (db (snd (RequestService_ClaimRequest now w i))) i
          = Some (r\<lparr>req_Status := StatusClaimed, req_UpdatedAt := now\<rparr>))
   \<and> (req_Status r \<noteq> StatusPending \<longrightarrow>
        RequestService_ClaimRequest now w i
          = (Some (Wrapf ''failed to claim request'' ErrNoRows), w))
   \<and> length (filter (\<lambda>(j, res). j = i \<and> res = None) (run_claims w cs)) \<le> 1
   \<and> (\<forall>k k'. k < n \<and> k' < n
          \<and> succeeded (snd (interleave i w n sched) ! k)
          \<and> succeeded (snd (interleave i w n sched) ! k') \<longrightarrow> k = k')"
proof -
  assume r: "requests (db w) i = Some r"
  have p: "is_pending w i \<longleftrightarrow> req_Status r = StatusPending"
    using r by (simp add: is_pending_def)
  have 1: "fst (RequestService_ClaimRequest now w i) = None \<longleftrightarrow> req_Status r = StatusPending"
    using p by (simp add: claim_result)
  have 2: "fst (Queries_ClaimRequest now (db w) i) = None \<longleftrightarrow> req_Status r = StatusPending"
    using r by (simp add: Queries_ClaimRequest_def update_requests_where_def)
  have 3: "req_Status r = StatusPending \<longrightarrow>
           requests (db (snd (RequestService_ClaimRequest now w i))) i
             = Some (r\<lparr>req_Status := StatusClaimed, req_UpdatedAt := now\<rparr>)"
    using p r by (simp add: claim_result)
  have 4: "req_Status r \<noteq> StatusPending \<longrightarrow>
           RequestService_ClaimRequest now w i
             = (Some (Wrapf ''failed to claim request'' ErrNoRows), w)"
    using p by (simp add: claim_result)
  have 5: "length (filter (\<lambda>(j, res). j = i \<and> res = None) (run_claims w cs)) \<le> 1"
    by (rule run_claims_at_most_one)
  have 6: "\<forall>k k'. k < n \<and> k' < n
          \<and> succeeded (snd (interleave i w n sched) ! k)
          \<and> succeeded (snd (interleave i w n sched) ! k') \<longrightarrow> k = k'"
    using interleave_at_most_one by blast
  from 1 2 3 4 5 6 show ?thesis by blast
qed

theorem claim_iff_pending_and_at_most_once_witness:
  "requests (db (world_of (request_X StatusPending None) (flow_F FlowStatusRunning ''init''))) ''X''
     = Some (request_X StatusPending None)
   \<and> fst (RequestService_ClaimRequest 5
            (world_of (request_X StatusPending None) (flow_F FlowStatusRunning ''init'')) ''X'') = None
   \<and> map snd (run_claims (world_of (request_X StatusPending None) (flow_F FlowStatusRunning ''init''))
        [(5, ''X''), (6, ''X''), (7, ''X'')])
      = [None, Some (Wrapf ''failed to claim request'' ErrNoRows),
         Some (Wrapf ''failed to claim request'' ErrNoRows)]
   \<and> snd (interleave ''X''
          (world_of (request_X StatusPending None) (flow_F FlowStatusRunning ''init'')) 3
          [(5, 1), (6, 0), (7, 1), (8, 2)])
      = [Returned (Some (Wrapf ''failed to claim request'' ErrNoRows)), Returned None,
         Returned (Some (Wrapf ''failed to claim request'' ErrNoRows))]"
proof -
  have h: "requests (db (world_of (request_X StatusPending None) (flow_F FlowStatusRunning ''init''))) ''X''
     = Some (request_X StatusPending None)"
    by (simp add: world_of_def request_X_def)
  have s: "req_Status (request_X StatusPending None) = StatusPending"
    by (simp add: request_X_def)
  have r: "map snd (run_claims (world_of (request_X StatusPending None) (flow_F FlowStatusRunning ''init''))
        [(5, ''X''), (6, ''X''), (7, ''X'')])
      = [None, Some (Wrapf ''failed to claim request'' ErrNoRows),
         Some (Wrapf ''failed to claim request'' ErrNoRows)]"
    by (simp add: claim_result is_pending_def world_of_def request_X_def)
  have t: "snd (interleave ''X''
          (world_of (request_X StatusPending None) (flow_F FlowStatusRunning ''init'')) 3
          [(5, 1), (6, 0), (7, 1), (8, 2)])
      = [Returned (Some (Wrapf ''failed to claim request'' ErrNoRows)), Returned None,
         Returned (Some (Wrapf ''failed to claim request'' ErrNoRows))]"
    by (simp add: interleave_def Queries_ClaimRequest_result GetRequestByID_def world_of_def
        request_X_def numeral_3_eq_3 Let_def)
  have c: "fst (RequestService_ClaimRequest 5
            (world_of (request_X StatusPending None) (flow_F FlowStatusRunning ''init'')) ''X'') = None"
    using conjunct1[OF claim_iff_pending_and_at_most_once[OF h, of 5]] s by simp
  show ?thesis using h c r t by (intro conjI)
qed


section \<open>The reference allowlist\<close>

lemma cache_Get_cache_set: "set (cache (snd (cache_Get c k))) = set (cache c)"
  by (auto simp: cache_Get_def)

lemma cache_Get_fields:
  "refAllowlist (snd (cache_Get c k)) = refAllowlist c"
  "maxSize (snd (cache_Get c k)) = maxSize c"
  by (auto simp: cache_Get_def)

lemma cache_Get_hit: "fst (cache_Get c k) \<longleftrightarrow> k \<in> set (cache c)"
  by (auto simp: cache_Get_def)

lemma cache_inv_Get: "cache_inv L c \<Longrightarrow> cache_inv L (snd (cache_Get c k))"
  by (simp add: cache_inv_def cache_Get_cache_set cache_Get_fields)

lemma cache_Add_set: "set (cache (cache_Add c k)) \<subseteq> insert k (set (cache c))"
  by (auto simp: cache_Add_def Let_def dest: in_set_takeD)

lemma cache_Add_fields: "refAllowlist (cache_Add c k) = refAllowlist c"
  by (simp add: cache_Add_def Let_def)

lemma Prepare_allowlist: "refAllowlist (snd (Prepare L c s)) = refAllowlist c"
  by (auto simp: Prepare_def Let_def cache_Get_def cache_Add_def split: option.splits prod.splits if_splits)

lemma cache_inv_Prepare: "cache_inv L c \<Longrightarrow> cache_inv L (snd (Prepare L c s))"
proof -
  assume inv: "cache_inv L c"
  obtain ok c1 where g: "cache_Get c s = (ok, c1)" by (cases "cache_Get c s")
  have inv1: "cache_inv L c1" using cache_inv_Get[OF inv, of s] g by simp
  have al: "refAllowlist c1 = refAllowlist c" using cache_Get_fields(1)[of c s] g by simp
  show ?thesis
  proof (cases "fst (Prepare L c s) = None \<and> \<not> ok")
    case False
    then have "snd (Prepare L c s) = c1"
      using g by (auto simp: Prepare_def Let_def split: option.splits if_splits)
    then show ?thesis using inv1 by simp
  next
    case True
    then have eq: "snd (Prepare L c s) = cache_Add c1 s"
      and ok: "add_resource L s = None" "compile L s = None"
        "refAllowlist c1 \<noteq> [] \<longrightarrow> validateRefs L (refAllowlist c1) (JObj s) = None"
      using g by (auto simp: Prepare_def Let_def split: option.splits if_splits)
    show ?thesis
      unfolding eq cache_inv_def cache_Add_fields
      using inv1 ok cache_Add_set[of c1 s] unfolding cache_inv_def by blast
  qed
qed

lemma Validate_cases:
  "snd (Validate L c kind s v) = c
   \<or> snd (Validate L c kind s v) = snd (cache_Get c s)
   \<or> snd (Validate L c kind s v) = snd (Prepare L (snd (cache_Get c s)) s)
   \<or> snd (Validate L c kind s v) = snd (cache_Get (snd (Prepare L (snd (cache_Get c s)) s)) s)"
  by (auto simp: Validate_def Let_def split: option.splits prod.splits if_splits)

lemma cache_inv_Validate: "cache_inv L c \<Longrightarrow> cache_inv L (snd (Validate L c kind s v))"
  using Validate_cases[of L c kind s v] cache_inv_Get cache_inv_Prepare by metis

lemma cache_inv_new: "cache_inv L (NewCompilerWithCacheAndAllowlist n al)"
  by (simp add: cache_inv_def NewCompilerWithCacheAndAllowlist_def)

lemma cache_inv_expire: "cache_inv L c \<Longrightarrow> cache_inv L (c\<lparr>cache := filter keep (cache c)\<rparr>)"
  by (simp add: cache_inv_def)

lemma reachable_cache_inv: "reachable_compiler L c \<Longrightarrow> cache_inv L c"
  by (induction rule: reachable_compiler.induct)
     (simp_all add: cache_inv_new cache_inv_Prepare cache_inv_Validate cache_inv_expire)

lemma validateRefs_None_iff:
  "validateRefs L al j = None \<longleftrightarrow> (\<forall>u \<in> set (refs_of j). isRefAllowed L al u)"
  "validateRefs_vals L al kvs = None \<longleftrightarrow> (\<forall>u \<in> set (refs_of_vals kvs). isRefAllowed L al u)"
  "validateRefs_items L al js = None \<longleftrightarrow> (\<forall>u \<in> set (refs_of_items js). isRefAllowed L al u)"
  by (induction L al j and L al kvs and L al js
      rule: validateRefs_validateRefs_vals_validateRefs_items.induct)
     (auto split: option.splits json.splits)

lemma validateRefs_Some:
  "validateRefs L al j = Some e \<Longrightarrow>
     \<exists>u \<in> set (refs_of j). \<not> isRefAllowed L al u
        \<and> e = Errorf (''$ref URL not allowed: '' @ u @ '' (not in allowlist)'')"
  "validateRefs_vals L al kvs = Some e \<Longrightarrow>
     \<exists>u \<in> set (refs_of_vals kvs). \<not> isRefAllowed L al u
        \<and> e = Errorf (''$ref URL not allowed: '' @ u @ '' (not in allowlist)'')"
  "validateRefs_items L al js = Some e \<Longrightarrow>
     \<exists>u \<in> set (refs_of_items js). \<not> isRefAllowed L al u
        \<and> e = Errorf (''$ref URL not allowed: '' @ u @ '' (not in allowlist)'')"
  by (induction L al j and L al kvs and L al js
      rule: validateRefs_validateRefs_vals_validateRefs_items.induct)
     (auto split: option.splits json.splits if_splits)

lemma isRefAllowed_nonempty:
  "al \<noteq> [] \<Longrightarrow> isRefAllowed L al u \<longleftrightarrow> (\<exists>p \<in> set al. matchesPattern L u p)"
  by (auto simp: isRefAllowed_def list_ex_iff)

lemma matchesPattern_iff:
  "matchesPattern L u p \<longleftrightarrow>
     u = p
     \<or> (suffix ''*'' p \<and> prefix (butlast p) u)
     \<or> (\<not> suffix ''*'' p \<and> (\<exists>h. url_host L u = Some h \<and> url_host L p = Some h))"
  by (auto simp: matchesPattern_def HasSuffix_def HasPrefix_def TrimSuffix_def butlast_conv_take
      suffix_def split: option.splits)

text \<open>
  C7. For a compiler in any state it can reach. With a non-empty allowlist: when
  \<^verbatim>\<open>Prepare\<close> succeeds, every reference URL of the document, nested ones included,
  matches a pattern of the allowlist; when some reference URL matches no pattern,
  \<^verbatim>\<open>Prepare\<close> fails with the error that names such a URL as not allowed. With an
  empty allowlist \<^verbatim>\<open>Prepare\<close> never fails on the references. A pattern matches a URL
  when they are equal; a pattern ending in \<^verbatim>\<open>*\<close> matches by the prefix before the
  \<^verbatim>\<open>*\<close>; any other pattern matches by having the host of the URL.
\<close>

theorem prepare_ref_allowlist:
  assumes "reachable_compiler L c"
  shows "(refAllowlist c \<noteq> [] \<longrightarrow>
            (fst (Prepare L c s) = None \<longrightarrow>
               (\<forall>u \<in> set (refs_of (JObj s)). \<exists>p \<in> set (refAllowlist c). matchesPattern L u p))
          \<and> ((\<exists>u \<in> set (refs_of (JObj s)). \<forall>p \<in> set (refAllowlist c). \<not> matchesPattern L u p) \<longrightarrow>
               (\<exists>u \<in> set (refs_of (JObj s)).
                  (\<forall>p \<in> set (refAllowlist c). \<not> matchesPattern L u p)
                  \<and> fst (Prepare L c s)
                      = Some (Wrapf ''$ref validation failed''
                               (Errorf (''$ref URL not allowed: '' @ u @ '' (not in allowlist)''))))))
       \<and> (refAllowlist c = [] \<longrightarrow> (\<forall>e. fst (Prepare L c s) \<noteq> Some (Wrapf ''$ref validation failed'' e)))
       \<and> (\<forall>u p. matchesPattern L u p \<longleftrightarrow>
             u = p
             \<or> (suffix ''*'' p \<and> prefix (butlast p) u)
             \<or> (\<not> suffix ''*'' p \<and> (\<exists>h. url_host L u = Some h \<and> url_host L p = Some h)))"
proof -
  have inv: "cache_inv L c" using assms by (rule reachable_cache_inv)
  let ?al = "refAllowlist c"
  have hit: "s \<in> set (cache c) \<Longrightarrow> ?al \<noteq> [] \<Longrightarrow> validateRefs L ?al (JObj s) = None"
    using inv by (simp add: cache_inv_def)
  have A: "?al \<noteq> [] \<Longrightarrow> fst (Prepare L c s) = None \<Longrightarrow> validateRefs L ?al (JObj s) = None"
  proof -
    assume ne: "?al \<noteq> []" and ok: "fst (Prepare L c s) = None"
    show ?thesis
    proof (cases "s \<in> set (cache c)")
      case True
      then show ?thesis using hit ne by simp
    next
      case False
      then show ?thesis using ok ne
        by (auto simp: Prepare_def cache_Get_def Let_def split: option.splits if_splits)
    qed
  qed
  have B: "?al \<noteq> [] \<Longrightarrow> validateRefs L ?al (JObj s) = Some e \<Longrightarrow>
             fst (Prepare L c s) = Some (Wrapf ''$ref validation failed'' e)" for e
  proof -
    assume ne: "?al \<noteq> []" and v: "validateRefs L ?al (JObj s) = Some e"
    have "s \<notin> set (cache c)" using hit ne v by auto
    then show ?thesis using ne v by (simp add: Prepare_def cache_Get_def Let_def)
  qed
  have 1: "?al \<noteq> [] \<Longrightarrow> fst (Prepare L c s) = None \<Longrightarrow>
             (\<forall>u \<in> set (refs_of (JObj s)). \<exists>p \<in> set ?al. matchesPattern L u p)"
    using A validateRefs_None_iff(1)[of L ?al "JObj s"] isRefAllowed_nonempty[of ?al L] by blast
  have 2: "?al \<noteq> [] \<Longrightarrow> (\<exists>u \<in> set (refs_of (JObj s)). \<forall>p \<in> set ?al. \<not> matchesPattern L u p) \<Longrightarrow>
             (\<exists>u \<in> set (refs_of (JObj s)).
                  (\<forall>p \<in> set ?al. \<not> matchesPattern L u p)
                  \<and> fst (Prepare L c s)
                      = Some (Wrapf ''$ref validation failed''
                               (Errorf (''$ref URL not allowed: '' @ u @ '' (not in allowlist)''))))"
  proof -
    assume ne: "?al \<noteq> []"
      and ex: "\<exists>u \<in> set (refs_of (JObj s)). \<forall>p \<in> set ?al. \<not> matchesPattern L u p"
    then have "validateRefs L ?al (JObj s) \<noteq> None"
      using validateRefs_None_iff(1)[of L ?al "JObj s"] isRefAllowed_nonempty[OF ne, of L] by blast
    then obtain e where e: "validateRefs L ?al (JObj s) = Some e" by blast
    from validateRefs_Some(1)[OF e] obtain u where u: "u \<in> set (refs_of (JObj s))"
      "\<not> isRefAllowed L ?al u" "e = Errorf (''$ref URL not allowed: '' @ u @ '' (not in allowlist)'')"
      by blast
    have "\<forall>p \<in> set ?al. \<not> matchesPattern L u p"
      using u(2) isRefAllowed_nonempty[OF ne, of L u] by blast
    then show ?thesis using u B[OF ne e] by blast
  qed
  have 3: "?al = [] \<Longrightarrow> fst (Prepare L c s) \<noteq> Some (Wrapf ''$ref validation failed'' e)" for e
    by (auto simp: Prepare_def cache_Get_def Let_def split: option.splits if_splits)
  show ?thesis using 1 2 3 matchesPattern_iff[of L] by blast
qed

theorem prepare_ref_allowlist_witness:
  "reachable_compiler sample_lib (NewCompilerWithCacheAndAllowlist 64 [''https://example.com/*''])
   \<and> fst (Prepare sample_lib (NewCompilerWithCacheAndAllowlist 64 [''https://example.com/*''])
           (ref_schema ''https://example.com/address.json'')) = None
   \<and> refs_of (JObj (ref_schema ''https://example.com/address.json''))
       = [''https://example.com/address.json'']
   \<and> matchesPattern sample_lib ''https://example.com/address.json'' ''https://example.com/*''
   \<and> fst (Prepare sample_lib (NewCompilerWithCacheAndAllowlist 64 [''https://example.com/*''])
           (ref_schema ''https://evil.test/a.json''))
      = Some (Wrapf ''$ref validation failed''
               (Errorf ''$ref URL not allowed: https://evil.test/a.json (not in allowlist)''))"
proof -
  have r: "reachable_compiler sample_lib (NewCompilerWithCacheAndAllowlist 64 [''https://example.com/*''])"
    by (rule rc_new)
  have a: "refAllowlist (NewCompilerWithCacheAndAllowlist 64 [''https://example.com/*'']) = [''https://example.com/*'']"
    by (simp add: NewCompilerWithCacheAndAllowlist_def)
  have p: "fst (Prepare sample_lib (NewCompilerWithCacheAndAllowlist 64 [''https://example.com/*''])
           (ref_schema ''https://example.com/address.json'')) = None"
    by (simp add: Prepare_def cache_Get_def cache_Add_def NewCompilerWithCacheAndAllowlist_def
        ref_schema_def isRefAllowed_def matchesPattern_def HasSuffix_def HasPrefix_def
        TrimSuffix_def sample_lib_def suffix_def)
  have q: "fst (Prepare sample_lib (NewCompilerWithCacheAndAllowlist 64 [''https://example.com/*''])
           (ref_schema ''https://evil.test/a.json''))
      = Some (Wrapf ''$ref validation failed''
               (Errorf ''$ref URL not allowed: https://evil.test/a.json (not in allowlist)''))"
    by (simp add: Prepare_def cache_Get_def cache_Add_def NewCompilerWithCacheAndAllowlist_def
        ref_schema_def isRefAllowed_def matchesPattern_def HasSuffix_def HasPrefix_def
        TrimSuffix_def sample_lib_def suffix_def)
  have m: "\<forall>u \<in> set (refs_of (JObj (ref_schema ''https://example.com/address.json''))).
         \<exists>p \<in> set [''https://example.com/*'']. matchesPattern sample_lib u p"
    using prepare_ref_allowlist[OF r, of "ref_schema ''https://example.com/address.json''"] p
    unfolding a by blast
  have f: "refs_of (JObj (ref_schema ''https://example.com/address.json''))
       = [''https://example.com/address.json'']"
    by (simp add: ref_schema_def)
  have mp: "matchesPattern sample_lib ''https://example.com/address.json'' ''https://example.com/*''"
    using m unfolding f by simp
  show ?thesis using r p q f mp by (intro conjI)
qed


section \<open>Responses that fail validation\<close>

lemma Validate_violation:
  "kind \<noteq> SchemaKindExample \<Longrightarrow> schema_validate L s v = Some e
   \<Longrightarrow> \<exists>e'. fst (Validate L c kind s v) = Some e'"
  by (auto simp: Validate_def Let_def split: option.splits prod.splits if_splits)

lemma PostResponse_validation_error:
  assumes "requests (db w) i = Some req"
    and "fst (Validate L (comp w) (req_SchemaKind req) (req_SchemaPayload req) payload) = Some e"
  shows "RequestService_PostResponse L now rid w i by payload files =
           (case GetEntityByID (db w) (if by = [] then req_EntityID req else by) of
              Inl e0 \<Rightarrow> (Inl (Wrapf ''entity not found'' e0), w)
            | Inr ent \<Rightarrow>
                (Inl (Wrapf ''schema validation failed'' e),
                 w\<lparr>comp := snd (Validate L (comp w) (req_SchemaKind req) (req_SchemaPayload req) payload)\<rparr>))"
proof -
  have k: "req_SchemaKind req = SchemaKindJSON \<or> req_SchemaKind req = SchemaKindRef"
    using assms(2) by (cases "req_SchemaKind req") (auto simp: Validate_def)
  obtain c1 where v: "Validate L (comp w) (req_SchemaKind req) (req_SchemaPayload req) payload = (Some e, c1)"
    using assms(2) by (cases "Validate L (comp w) (req_SchemaKind req) (req_SchemaPayload req) payload") auto
  show ?thesis
    using assms(1) k v
    by (auto simp: RequestService_PostResponse_def GetRequestByID_def Let_def split: sum.splits)
qed

text \<open>
  C3. For a stored request whose schema kind is validated, and a payload the request's
  compiled schema rejects: \<^verbatim>\<open>PostResponse\<close> returns an error and writes nothing; the
  database (the request's row and status, the responses) is as before and no event is
  published. The function looks the responder entity up before it validates: the error
  is the schema validation failure when that entity exists, and the entity lookup's
  failure when it does not.
\<close>

theorem post_response_schema_violation:
  assumes "requests (db w) i = Some req"
    and "req_SchemaKind req \<noteq> SchemaKindExample"
    and "schema_validate L (req_SchemaPayload req) payload = Some e"
  shows "(\<exists>err. fst (RequestService_PostResponse L now rid w i by payload files) = Inl err)
       \<and> db (snd (RequestService_PostResponse L now rid w i by payload files)) = db w
       \<and> published (snd (RequestService_PostResponse L now rid w i by payload files)) = published w
       \<and> jobs (snd (RequestService_PostResponse L now rid w i by payload files)) = jobs w
       \<and> (\<forall>ent. GetEntityByID (db w) (if by = [] then req_EntityID req else by) = Inr ent \<longrightarrow>
             (\<exists>e'. fst (RequestService_PostResponse L now rid w i by payload files)
                     = Inl (Wrapf ''schema validation failed'' e')))
       \<and> (\<forall>e0. GetEntityByID (db w) (if by = [] then req_EntityID req else by) = Inl e0 \<longrightarrow>
             RequestService_PostResponse L now rid w i by payload files
               = (Inl (Wrapf ''entity not found'' e0), w))"
proof -
  from Validate_violation[OF assms(2,3), of "comp w"] obtain e' where
    e': "fst (Validate L (comp w) (req_SchemaKind req) (req_SchemaPayload req) payload) = Some e'"
    by blast
  show ?thesis
    unfolding PostResponse_validation_error[OF assms(1) e']
    by (auto split: sum.splits)
qed

theorem post_response_schema_violation_witness:
  "requests (db (world_of (request_X StatusClaimed None) (flow_F FlowStatusRunning ''init''))) ''X''
     = Some (request_X StatusClaimed None)
   \<and> schema_validate sample_lib (req_SchemaPayload (request_X StatusClaimed None)) []
       = Some (Errorf ''missing properties'')
   \<and> RequestService_PostResponse sample_lib 9 ''Y''
        (world_of (request_X StatusClaimed None) (flow_F FlowStatusRunning ''init'')) ''X'' ''e1'' [] []
      = (Inl (Wrapf ''schema validation failed''
               (Wrapf ''validation failed'' (Errorf ''missing properties''))),
         (world_of (request_X StatusClaimed None) (flow_F FlowStatusRunning ''init''))
           \<lparr>comp := (NewCompilerWithCache 64)\<lparr>cache := [name_schema]\<rparr>\<rparr>)
   \<and> db (snd (RequestService_PostResponse sample_lib 9 ''Y''
        (world_of (request_X StatusClaimed None) (flow_F FlowStatusRunning ''init'')) ''X'' ''e1'' [] []))
      = db (world_of (request_X StatusClaimed None) (flow_F FlowStatusRunning ''init''))"
proof -
  let ?w = "world_of (request_X StatusClaimed None) (flow_F FlowStatusRunning ''init'')"
  have h1: "requests (db ?w) ''X'' = Some (request_X StatusClaimed None)"
    by (simp add: world_of_def request_X_def)
  have h2: "req_SchemaKind (request_X StatusClaimed None) \<noteq> SchemaKindExample"
    by (simp add: request_X_def)
  have h3: "schema_validate sample_lib (req_SchemaPayload (request_X StatusClaimed None)) []
       = Some (Errorf ''missing properties'')"
    by (simp add: sample_lib_def request_X_def name_schema_def required_of_def List.map_filter_def)
  have ev: "RequestService_PostResponse sample_lib 9 ''Y'' ?w ''X'' ''e1'' [] []
      = (Inl (Wrapf ''schema validation failed''
               (Wrapf ''validation failed'' (Errorf ''missing properties''))),
         ?w\<lparr>comp := (NewCompilerWithCache 64)\<lparr>cache := [name_schema]\<rparr>\<rparr>)"
    by (simp add: RequestService_PostResponse_def GetRequestByID_def GetEntityByID_def
        world_of_def request_X_def alice_def Validate_def Prepare_def cache_Get_def cache_Add_def
        NewCompilerWithCache_def NewCompilerWithCacheAndAllowlist_def sample_lib_def
        name_schema_def required_of_def List.map_filter_def Let_def)
  show ?thesis
    using post_response_schema_violation[OF h1 h2 h3, of 9 "''Y''" "''e1''" "[]"] h1 h3 ev
    by simp
qed

text \<open>
  The claim without the condition on the responder fails: for the CLAIMED request
  \<^verbatim>\<open>X\<close>, the payload \<^verbatim>\<open>{}\<close> that its schema rejects, and the unknown responder
  \<^verbatim>\<open>ghost\<close>, the call fails with the entity lookup's error, not with the schema
  validation failure (and writes nothing).
\<close>

theorem post_response_unknown_responder_counterexample:
  "requests (db (world_of (request_X StatusClaimed None) (flow_F FlowStatusRunning ''init''))) ''X''
     = Some (request_X StatusClaimed None)
   \<and> schema_validate sample_lib (req_SchemaPayload (request_X StatusClaimed None)) []
       = Some (Errorf ''missing properties'')
   \<and> GetEntityByID (db (world_of (request_X StatusClaimed None) (flow_F FlowStatusRunning ''init'')))
        ''ghost'' = Inl ErrNoRows
   \<and> RequestService_PostResponse sample_lib 9 ''Y''
        (world_of (request_X StatusClaimed None) (flow_F FlowStatusRunning ''init''))
        ''X'' ''ghost'' [] []
      = (Inl (Wrapf ''entity not found'' ErrNoRows),
         world_of (request_X StatusClaimed None) (flow_F FlowStatusRunning ''init''))"
  by (simp add: RequestService_PostResponse_def GetRequestByID_def GetEntityByID_def
      world_of_def request_X_def alice_def sample_lib_def name_schema_def required_of_def
      List.map_filter_def Let_def)


section \<open>Schema kinds\<close>

lemma Prepare_ok_compiles:
  "cache_inv L c \<Longrightarrow> fst (Prepare L c s) = None \<Longrightarrow> compile L s = None"
proof (cases "s \<in> set (cache c)")
  case True
  assume "cache_inv L c"
  then show ?thesis using True unfolding cache_inv_def by blast
next
  case False
  assume "fst (Prepare L c s) = None"
  then show ?thesis using False
    by (auto simp: Prepare_def cache_Get_def Let_def split: option.splits if_splits)
qed

lemma CreateRequest_prepare_fails:
  assumes "detectSchemaKind (in_Schema input) \<noteq> SchemaKindExample"
    and "fst (Prepare L (comp w) (in_Schema input)) = Some e"
  shows "RequestService_CreateRequest L now rid w input =
           (case ResolveEntity (db w) (in_EntityID input) (in_EntityHandle input) of
              Inl e0 \<Rightarrow> (Inl (Wrapf ''failed to resolve entity'' e0), w)
            | Inr ent \<Rightarrow> (Inl (Wrapf ''invalid schema'' e),
                          w\<lparr>comp := snd (Prepare L (comp w) (in_Schema input))\<rparr>))"
proof -
  have k: "detectSchemaKind (in_Schema input) = SchemaKindJSON
           \<or> detectSchemaKind (in_Schema input) = SchemaKindRef"
    using assms(1) by (cases "detectSchemaKind (in_Schema input)") auto
  obtain c1 where p: "Prepare L (comp w) (in_Schema input) = (Some e, c1)"
    using assms(2) by (cases "Prepare L (comp w) (in_Schema input)") auto
  show ?thesis using k p
    by (auto simp: RequestService_CreateRequest_def Let_def split: sum.splits)
qed

lemma CreateRequest_ok_prepared:
  assumes "fst (RequestService_CreateRequest L now rid w input) = Inr r"
  shows "req_SchemaKind r = detectSchemaKind (in_Schema input)
       \<and> req_Status r = StatusPending
       \<and> (detectSchemaKind (in_Schema input) \<noteq> SchemaKindExample \<longrightarrow>
            fst (Prepare L (comp w) (in_Schema input)) = None)"
  using assms
  by (cases "detectSchemaKind (in_Schema input)")
     (auto simp: RequestService_CreateRequest_def CreateRequest_def Let_def
      split: sum.splits option.splits prod.splits if_splits)

lemma PostResponse_example_accepts:
  assumes "requests (db w) i = Some req" and "req_SchemaKind req = SchemaKindExample"
    and "GetEntityByID (db w) (if by = [] then req_EntityID req else by) = Inr ent"
    and "\<not> list_ex (\<lambda>r. resp_ID r = rid) (responses (db w))"
  shows "\<exists>resp. fst (RequestService_PostResponse L now rid w i by payload []) = Inr resp
           \<and> resp_Payload resp = payload"
  using assms
  by (auto simp: RequestService_PostResponse_def GetRequestByID_def CreateResponse_def
      UpdateRequestStatus_def update_requests_where_def Let_def split: sum.splits)

text \<open>
  C10. The schema kind depends on the top-level keys only, \<^verbatim>\<open>$ref\<close> first: a
  document with a top-level \<^verbatim>\<open>$ref\<close> is a remote reference, also when it has
  \<^verbatim>\<open>example\<close>; otherwise one with a top-level \<^verbatim>\<open>example\<close> is a JSON example;
  otherwise it is an inline schema. Two documents with the same two keys present have the
  same kind, and a created request stores that kind. For a JSON example \<^verbatim>\<open>Validate\<close>
  accepts every value and \<^verbatim>\<open>PostResponse\<close> stores any payload. For the other kinds
  creation fails, writing nothing, when \<^verbatim>\<open>Prepare\<close> fails; and an inline schema of a
  request that was created compiles.
\<close>

theorem schema_kind_by_top_level_keys:
  "(map_of s ''$ref'' \<noteq> None \<longrightarrow> detectSchemaKind s = SchemaKindRef)
   \<and> (map_of s ''$ref'' = None \<and> map_of s ''example'' \<noteq> None \<longrightarrow>
        detectSchemaKind s = SchemaKindExample)
   \<and> (map_of s ''$ref'' = None \<and> map_of s ''example'' = None \<longrightarrow>
        detectSchemaKind s = SchemaKindJSON)
   \<and> ((map_of s ''$ref'' = None \<longleftrightarrow> map_of s' ''$ref'' = None)
        \<and> (map_of s ''example'' = None \<longleftrightarrow> map_of s' ''example'' = None) \<longrightarrow>
        detectSchemaKind s = detectSchemaKind s')
   \<and> (\<forall>r. fst (RequestService_CreateRequest L now rid w input) = Inr r \<longrightarrow>
          req_SchemaKind r = detectSchemaKind (in_Schema input))
   \<and> Validate L c SchemaKindExample s v = (None, c)
   \<and> (\<forall>req ent. requests (db w) i = Some req \<and> req_SchemaKind req = SchemaKindExample
          \<and> GetEntityByID (db w) (if by = [] then req_EntityID req else by) = Inr ent
          \<and> \<not> list_ex (\<lambda>r. resp_ID r = pid) (responses (db w)) \<longrightarrow>
          (\<exists>resp. fst (RequestService_PostResponse L now pid w i by v []) = Inr resp
             \<and> resp_Payload resp = v))
   \<and> (\<forall>e. detectSchemaKind (in_Schema input) \<noteq> SchemaKindExample
          \<and> fst (Prepare L (comp w) (in_Schema input)) = Some e \<longrightarrow>
          (\<exists>err. fst (RequestService_CreateRequest L now rid w input) = Inl err)
          \<and> db (snd (RequestService_CreateRequest L now rid w input)) = db w
          \<and> (\<forall>ent. ResolveEntity (db w) (in_EntityID input) (in_EntityHandle input) = Inr ent \<longrightarrow>
                fst (RequestService_CreateRequest L now rid w input)
                  = Inl (Wrapf ''invalid schema'' e)))
   \<and> (\<forall>r. reachable_compiler L (comp w)
          \<and> detectSchemaKind (in_Schema input) = SchemaKindJSON
          \<and> fst (RequestService_CreateRequest L now rid w input) = Inr r \<longrightarrow>
          compile L (in_Schema input) = None)"
proof -
  have 1: "map_of s ''$ref'' \<noteq> None \<longrightarrow> detectSchemaKind s = SchemaKindRef"
    by (simp add: detectSchemaKind_def)
  have 2: "map_of s ''$ref'' = None \<and> map_of s ''example'' \<noteq> None \<longrightarrow>
        detectSchemaKind s = SchemaKindExample"
    by (simp add: detectSchemaKind_def)
  have 3: "map_of s ''$ref'' = None \<and> map_of s ''example'' = None \<longrightarrow>
        detectSchemaKind s = SchemaKindJSON"
    by (simp add: detectSchemaKind_def)
  have 4: "(map_of s ''$ref'' = None \<longleftrightarrow> map_of s' ''$ref'' = None)
        \<and> (map_of s ''example'' = None \<longleftrightarrow> map_of s' ''example'' = None) \<longrightarrow>
        detectSchemaKind s = detectSchemaKind s'"
    by (simp add: detectSchemaKind_def)
  have 5: "\<forall>r. fst (RequestService_CreateRequest L now rid w input) = Inr r \<longrightarrow>
          req_SchemaKind r = detectSchemaKind (in_Schema input)"
    using CreateRequest_ok_prepared by blast
  have 6: "Validate L c SchemaKindExample s v = (None, c)"
    by (simp add: Validate_def)
  have 7: "\<forall>req ent. requests (db w) i = Some req \<and> req_SchemaKind req = SchemaKindExample
          \<and> GetEntityByID (db w) (if by = [] then req_EntityID req else by) = Inr ent
          \<and> \<not> list_ex (\<lambda>r. resp_ID r = pid) (responses (db w)) \<longrightarrow>
          (\<exists>resp. fst (RequestService_PostResponse L now pid w i by v []) = Inr resp
             \<and> resp_Payload resp = v)"
    using PostResponse_example_accepts by blast
  have 8: "\<forall>e. detectSchemaKind (in_Schema input) \<noteq> SchemaKindExample
          \<and> fst (Prepare L (comp w) (in_Schema input)) = Some e \<longrightarrow>
          (\<exists>err. fst (RequestService_CreateRequest L now rid w input) = Inl err)
          \<and> db (snd (RequestService_CreateRequest L now rid w input)) = db w
          \<and> (\<forall>ent. ResolveEntity (db w) (in_EntityID input) (in_EntityHandle input) = Inr ent \<longrightarrow>
                fst (RequestService_CreateRequest L now rid w input)
                  = Inl (Wrapf ''invalid schema'' e))"
  proof (intro allI impI)
    fix e
    assume a: "detectSchemaKind (in_Schema input) \<noteq> SchemaKindExample
          \<and> fst (Prepare L (comp w) (in_Schema input)) = Some e"
    show "(\<exists>err. fst (RequestService_CreateRequest L now rid w input) = Inl err)
          \<and> db (snd (RequestService_CreateRequest L now rid w input)) = db w
          \<and> (\<forall>ent. ResolveEntity (db w) (in_EntityID input) (in_EntityHandle input) = Inr ent \<longrightarrow>
                fst (RequestService_CreateRequest L now rid w input)
                  = Inl (Wrapf ''invalid schema'' e))"
      unfolding CreateRequest_prepare_fails[OF conjunct1[OF a] conjunct2[OF a]]
      by (auto split: sum.splits)
  qed
  have 9: "\<forall>r. reachable_compiler L (comp w)
          \<and> detectSchemaKind (in_Schema input) = SchemaKindJSON
          \<and> fst (RequestService_CreateRequest L now rid w input) = Inr r \<longrightarrow>
          compile L (in_Schema input) = None"
    using CreateRequest_ok_prepared[of L now rid w input] Prepare_ok_compiles[of L "comp w"]
      reachable_cache_inv[of L "comp w"] by auto
  from 1 2 3 4 5 6 7 8 9 show ?thesis by blast
qed

theorem schema_kind_by_top_level_keys_witness:
  "map_of [(''example'', JObj [(''name'', JStr ''test'')]), (''$ref'', JStr ''https://example.com/s.json'')]
      ''$ref'' \<noteq> None
   \<and> detectSchemaKind
        [(''example'', JObj [(''name'', JStr ''test'')]), (''$ref'', JStr ''https://example.com/s.json'')]
      = SchemaKindRef
   \<and> detectSchemaKind [(''example'', JObj [(''name'', JStr ''test'')])] = SchemaKindExample
   \<and> detectSchemaKind name_schema = SchemaKindJSON"
proof -
  have h: "map_of [(''example'', JObj [(''name'', JStr ''test'')]),
                   (''$ref'', JStr ''https://example.com/s.json'')] ''$ref'' \<noteq> None"
    by simp
  have e: "detectSchemaKind [(''example'', JObj [(''name'', JStr ''test'')])] = SchemaKindExample"
    by (simp add: detectSchemaKind_def)
  have j: "detectSchemaKind name_schema = SchemaKindJSON"
    by (simp add: detectSchemaKind_def name_schema_def)
  have r: "detectSchemaKind
        [(''example'', JObj [(''name'', JStr ''test'')]), (''$ref'', JStr ''https://example.com/s.json'')]
      = SchemaKindRef"
    by (rule mp[OF conjunct1[OF schema_kind_by_top_level_keys[where
        s = "[(''example'', JObj [(''name'', JStr ''test'')]),
              (''$ref'', JStr ''https://example.com/s.json'')]"]] h])
  show ?thesis using h e j r by (intro conjI)
qed


section \<open>Sequence numbers of published events\<close>

lemma show_nat_digit: "n < 10 \<Longrightarrow> show_nat n = [digit_char n]"
  by (simp add: show_nat.simps)

lemma show_nat_step: "10 \<le> n \<Longrightarrow> show_nat n = show_nat (n div 10) @ [digit_char (n mod 10)]"
  by (subst show_nat.simps) simp

lemma PublishEvent_unfold:
  "PublishEvent now_ms r channel e =
     (let seq0 = (case counters r (''seq:'' @ channel) of None \<Rightarrow> 0 | Some n \<Rightarrow> n) + 1;
          es = (case streams r (''stream:'' @ channel) of None \<Rightarrow> [] | Some es \<Rightarrow> es);
          i = next_id now_ms es;
          seqFromID = (case parseStreamID (show_id i) of Inl err \<Rightarrow> 0 | Inr v \<Rightarrow> v)
      in (if seqFromID > 0 then seqFromID else seq0,
          \<lparr>counters = (counters r)(''seq:'' @ channel \<mapsto> seq0),
           streams = (streams r)(''stream:'' @ channel \<mapsto>
             es @ [(i, JObj (AList.update ''timestamp'' (JNum (int now_ms))
                          (AList.update ''channel'' (JStr channel)
                             (AList.update ''seq'' (JNum seq0) e))))])\<rparr>))"
  by (simp add: PublishEvent_def getNextSequence_def Incr_def XAdd_def Let_def)

lemma show_nat_not_Nil: "show_nat n \<noteq> []"
  by (subst show_nat.simps) simp

lemma show_nat_0: "show_nat 0 = ''0''"
  by (simp add: show_nat_digit digit_char_def)

lemma show_nat_1: "show_nat (Suc 0) = ''1''"
  by (simp add: show_nat_digit digit_char_def)

lemma splitStreamID_one_digit:
  "a \<noteq> [] \<Longrightarrow> d \<noteq> CHR ''-'' \<Longrightarrow> splitStreamID (a @ [CHR ''-'', d]) = [a, [d]]"
  by (simp add: splitStreamID_def nth_append Let_def)

lemma parse_id_0: "parseStreamID (show_id (ms, 0)) = Inr 0"
  by (simp add: show_id_def show_nat_0 parseStreamID_def splitStreamID_one_digit show_nat_not_Nil
      ParseInt_def is_digit_def digits_value_def digit_value_def Let_def)

lemma parse_id_1: "parseStreamID (show_id (ms, Suc 0)) = Inr 1"
  by (simp add: show_id_def show_nat_1 parseStreamID_def splitStreamID_one_digit show_nat_not_Nil
      ParseInt_def is_digit_def digits_value_def digit_value_def Let_def)

lemma pub_first:
  "PublishEvent 1700000000000 redis0 ''entity:E'' (sample_event ''a'')
   = (1, \<lparr>counters = [''seq:entity:E'' \<mapsto> 1],
           streams = [''stream:entity:E'' \<mapsto>
             [((1700000000000, 0), JObj [(''type'', JStr ''a''), (''seq'', JNum 1),
                (''channel'', JStr ''entity:E''), (''timestamp'', JNum 1700000000000)])]]\<rparr>)"
  by (simp add: PublishEvent_unfold redis0_def next_id_def parse_id_0 sample_event_def)

lemma pub_second:
  "PublishEvent 1700000000000
     \<lparr>counters = [''seq:entity:E'' \<mapsto> 1],
      streams = [''stream:entity:E'' \<mapsto>
             [((1700000000000, 0), JObj [(''type'', JStr ''a''), (''seq'', JNum 1),
                (''channel'', JStr ''entity:E''), (''timestamp'', JNum 1700000000000)])]]\<rparr>
     ''entity:E'' (sample_event ''b'')
   = (1, \<lparr>counters = [''seq:entity:E'' \<mapsto> 2],
           streams = [''stream:entity:E'' \<mapsto>
             [((1700000000000, 0), JObj [(''type'', JStr ''a''), (''seq'', JNum 1),
                (''channel'', JStr ''entity:E''), (''timestamp'', JNum 1700000000000)]),
              ((1700000000000, 1), JObj [(''type'', JStr ''b''), (''seq'', JNum 2),
                (''channel'', JStr ''entity:E''), (''timestamp'', JNum 1700000000000)])]]\<rparr>)"
  by (simp add: PublishEvent_unfold next_id_def parse_id_1 sample_event_def Let_def)

text \<open>
  C9 (the code departs from the claim). Two events published on a fresh channel within
  the same millisecond: Redis gives the second entry the ID \<^verbatim>\<open>1700000000000-1\<close>, and
  \<^verbatim>\<open>PublishEvent\<close> returns the number after the dash, 1, in place of the counter's 2.
  Both publications return 1, so the returned numbers are not strictly increasing, and
  the second stored record carries \<^verbatim>\<open>seq\<close> 2 while 1 was returned to its publisher.
\<close>

theorem publish_event_same_millisecond:
  "publish_all redis0 ''entity:E'' [(1700000000000, sample_event ''a''), (1700000000000, sample_event ''b'')]
   = ([1, 1],
      \<lparr>counters = [''seq:entity:E'' \<mapsto> 2],
       streams = [''stream:entity:E'' \<mapsto>
         [((1700000000000, 0), JObj [(''type'', JStr ''a''), (''seq'', JNum 1),
              (''channel'', JStr ''entity:E''), (''timestamp'', JNum 1700000000000)]),
          ((1700000000000, 1), JObj [(''type'', JStr ''b''), (''seq'', JNum 2),
              (''channel'', JStr ''entity:E''), (''timestamp'', JNum 1700000000000)])]]\<rparr>)"
  by (simp add: pub_first pub_second)

section \<open>Replay from a sequence number\<close>

lemma fst_stored_event: "fst (stored_event ms n t) = (ms, 0)"
  by (simp add: stored_event_def)

lemma pub_next:
  "es \<noteq> [] \<Longrightarrow> fst (fst (last es)) < now_ms \<Longrightarrow>
   PublishEvent now_ms \<lparr>counters = [''seq:entity:E'' \<mapsto> n],
                         streams = [''stream:entity:E'' \<mapsto> es]\<rparr> ''entity:E'' (sample_event t)
   = (n + 1, \<lparr>counters = [''seq:entity:E'' \<mapsto> n + 1],
               streams = [''stream:entity:E'' \<mapsto> es @ [stored_event now_ms (n + 1) t]]\<rparr>)"
  by (cases "fst (last es)")
     (simp add: PublishEvent_unfold next_id_def parse_id_0 sample_event_def Let_def stored_event_def)

lemma pub_start:
  "PublishEvent now_ms redis0 ''entity:E'' (sample_event t)
   = (1, \<lparr>counters = [''seq:entity:E'' \<mapsto> 1],
           streams = [''stream:entity:E'' \<mapsto> [stored_event now_ms 1 t]]\<rparr>)"
  by (simp add: PublishEvent_unfold redis0_def next_id_def parse_id_0 sample_event_def stored_event_def)

lemma pub5:
  "publish_all redis0 ''entity:E'' five_events
   = ([1, 2, 3, 4, 5],
      \<lparr>counters = [''seq:entity:E'' \<mapsto> 5],
       streams = [''stream:entity:E'' \<mapsto>
         [stored_event 1700000000001 1 ''e1'', stored_event 1700000000002 2 ''e2'',
          stored_event 1700000000003 3 ''e3'', stored_event 1700000000004 4 ''e4'',
          stored_event 1700000000005 5 ''e5'']]\<rparr>)"
  by (simp add: five_events_def pub_start pub_next fst_stored_event)

text \<open>
  C8 (the code departs from the claim). Five events are published on a channel, one per
  millisecond, and receive the sequence numbers 1 to 5. A replay since 3, ten
  milliseconds later, reads the stream from the ID made of the time a day earlier and the
  number 3: every entry of the last day is newer than that ID, so the replay returns,
  and \<^verbatim>\<open>Hub.Resume\<close> sends, all five events, those with sequence numbers 1, 2 and 3
  included.
\<close>

theorem replay_since_3:
  "fst (publish_all redis0 ''entity:E'' five_events) = [1, 2, 3, 4, 5]
   \<and> map se_Sequence
        (ReplayEvents 1700000000010 (snd (publish_all redis0 ''entity:E'' five_events))
           ''entity:E'' 3 100)
      = [1, 2, 3, 4, 5]
   \<and> map msg_Seq
        (conn_send (Hub_Resume 1700000000010 (snd (publish_all redis0 ''entity:E'' five_events))
           conn0 ''entity:E'' 3))
      = [1, 2, 3, 4, 5]"
  by (simp add: pub5 Hub_Resume_def conn0_def ReplayEvents_def XRead_def id_greater_def
      stored_event_def decode_message_def List.map_filter_def str_field_def)

section \<open>Operations on terminal requests and flows\<close>

lemmas world_eval =
  world_of_def request_X_def flow_F_def alice_def name_schema_def
  NewCompilerWithCache_def NewCompilerWithCacheAndAllowlist_def

lemmas post_eval =
  RequestService_PostResponse_def GetRequestByID_def GetEntityByID_def Validate_def Prepare_def
  cache_Get_def cache_Add_def sample_lib_def required_of_def List.map_filter_def
  CreateResponse_def UpdateRequestStatus_def update_requests_where_def
  PublishRequest_def PublishRequestor_def Let_def

text \<open>
  C2 (the code departs from the claim). \<^verbatim>\<open>PostResponse\<close> never reads the status of the
  request. On the EXPIRED request \<^verbatim>\<open>X\<close> a valid payload is accepted: the call returns
  the response, inserts its row and sets the request to ANSWERED. A second submission
  after a first one has answered the request is accepted as well and leaves two response
  rows.
\<close>

theorem post_response_on_terminal_request:
  "fst (RequestService_PostResponse sample_lib 9 ''Y''
          (world_of (request_X StatusExpired None) (flow_F FlowStatusRunning ''init''))
          ''X'' ''e1'' [(''name'', JStr ''Alice'')] [])
     = Inr \<lparr>resp_ID = ''Y'', resp_RequestID = ''X'', resp_AnsweredBy = ''e1'',
             resp_Payload = [(''name'', JStr ''Alice'')], resp_Files = [], resp_AnsweredAt = 9\<rparr>
   \<and> requests (db (snd (RequestService_PostResponse sample_lib 9 ''Y''
          (world_of (request_X StatusExpired None) (flow_F FlowStatusRunning ''init''))
          ''X'' ''e1'' [(''name'', JStr ''Alice'')] []))) ''X''
     = Some ((request_X StatusAnswered None)\<lparr>req_UpdatedAt := 9\<rparr>)
   \<and> responses (db (snd (RequestService_PostResponse sample_lib 9 ''Y''
          (world_of (request_X StatusExpired None) (flow_F FlowStatusRunning ''init''))
          ''X'' ''e1'' [(''name'', JStr ''Alice'')] [])))
     = [\<lparr>resp_ID = ''Y'', resp_RequestID = ''X'', resp_AnsweredBy = ''e1'',
          resp_Payload = [(''name'', JStr ''Alice'')], resp_Files = [], resp_AnsweredAt = 9\<rparr>]
   \<and> map resp_ID (responses (db (snd (RequestService_PostResponse sample_lib 12 ''Z''
          (snd (RequestService_PostResponse sample_lib 9 ''Y''
             (world_of (request_X StatusClaimed None) (flow_F FlowStatusRunning ''init''))
             ''X'' ''e1'' [(''name'', JStr ''Alice'')] []))
          ''X'' ''e1'' [(''name'', JStr ''Bob'')] [])))) = [''Y'', ''Z'']"
  by (simp add: post_eval world_eval)

lemma CancelFlow_requests: "requests (db (snd (CancelFlow now w f))) = requests (db w)"
  by (simp add: CancelFlow_def GetFlowByID_def UpdateFlowStatus_def update_flows_def Let_def
      split: option.splits)

text \<open>
  C4 (the code departs from the claim). \<^verbatim>\<open>CancelFlow\<close> writes the flow's row only: the
  requests are as before, whatever the state. With the flow \<^verbatim>\<open>F\<close> running and owning
  the PENDING request \<^verbatim>\<open>X\<close>, the flow becomes CANCELLED and \<^verbatim>\<open>X\<close> stays PENDING.
\<close>

theorem cancel_flow_leaves_requests:
  "requests (db (snd (CancelFlow now w f))) = requests (db w)
   \<and> fst (CancelFlow 9 (world_of (request_X StatusPending (Some ''F''))
                          (flow_F FlowStatusRunning ''init'')) ''F'') = None
   \<and> flows (db (snd (CancelFlow 9 (world_of (request_X StatusPending (Some ''F''))
                          (flow_F FlowStatusRunning ''init'')) ''F''))) ''F''
      = Some ((flow_F FlowStatusCancelled ''init'')\<lparr>flow_UpdatedAt := 9\<rparr>)
   \<and> requests (db (snd (CancelFlow 9 (world_of (request_X StatusPending (Some ''F''))
                          (flow_F FlowStatusRunning ''init'')) ''F''))) ''X''
      = Some (request_X StatusPending (Some ''F''))"
  by (simp add: CancelFlow_requests)
     (simp add: CancelFlow_def GetFlowByID_def UpdateFlowStatus_def update_flows_def Let_def
        world_eval)








lemmas flow_eval =
  ResumeFlow_def TickFlow_def CancelFlow_def apply_result_def GetFlowByID_def UpdateFlowStatus_def
  UpdateFlowCursor_def update_flows_def BasicFlowRunner_Run_def str_field_def PublishEntity_def
  Let_def

text \<open>
  C6 (the code departs from the claim). \<^verbatim>\<open>ResumeFlow\<close> sets the status to RUNNING
  and \<^verbatim>\<open>CancelFlow\<close> sets it to CANCELLED without reading it: resuming the CANCELLED
  flow \<^verbatim>\<open>F\<close> (at step \<^verbatim>\<open>init\<close>, with the default runner) leaves it RUNNING, and
  cancelling the COMPLETED flow leaves it CANCELLED. \<^verbatim>\<open>TickFlow\<close> alone checks the
  status and leaves a COMPLETED flow as it is.
\<close>

theorem terminal_flow_left_by_resume_and_cancel:
  "fst (ResumeFlow 9 (Some BasicFlowRunner_Run)
          (world_of (request_X StatusAnswered (Some ''F'')) (flow_F FlowStatusCancelled ''init''))
          ''F'' ''request.answered'' [(''requestId'', JStr ''X'')]) = None
   \<and> map_option flow_Status
        (flows (db (snd (ResumeFlow 9 (Some BasicFlowRunner_Run)
          (world_of (request_X StatusAnswered (Some ''F'')) (flow_F FlowStatusCancelled ''init''))
          ''F'' ''request.answered'' [(''requestId'', JStr ''X'')]))) ''F'')
      = Some FlowStatusRunning
   \<and> map_option flow_Status
        (flows (db (snd (CancelFlow 9
          (world_of (request_X StatusAnswered (Some ''F'')) (flow_F FlowStatusCompleted ''complete''))
          ''F''))) ''F'')
      = Some FlowStatusCancelled
   \<and> TickFlow now runner (world_of r (flow_F FlowStatusCompleted step)) ''F''
      = (None, world_of r (flow_F FlowStatusCompleted step))"
  by (simp add: flow_eval world_eval)

end
